theory Spec2Isabelle
  imports Complex_Main "HOL-Library.AList"
begin

section \<open>Values of the translation engine\<close>

text \<open>
  The engine of \<^verbatim>\<open>static/js/i18n.js\<close> works on values parsed from JSON files, on
  \<^verbatim>\<open>undefined\<close> (a missing property, an index out of range) and, through the
  \<^verbatim>\<open>in\<close> operator and property reads, on members inherited from the prototype
  objects (functions). \<open>jsval\<close> is that value space. An object is the list of its own
  properties; a read takes the first entry for a name.
\<close>

datatype jsval =
    JUndefined
  | JNull
  | JBool bool
  | JNum rat
  | JStr string
  | JArr "jsval list"
  | JObj "(string \<times> jsval) list"
  | JFunction string

text \<open>A DOM node: a text node, or an element with its tag, attributes and children.\<close>

datatype node =
    Text string
  | Element string "(string \<times> string) list" "node list"

text \<open>
  What the code takes from the JavaScript runtime and not from its own text: the members
  reachable through \<^verbatim>\<open>Object.prototype\<close> (for a plain object) and through
  \<^verbatim>\<open>Array.prototype\<close> and \<^verbatim>\<open>Object.prototype\<close> (for an array), the string
  conversion applied when a non-string value is written into the DOM, and the HTML
  fragment parser behind \<^verbatim>\<open>innerHTML\<close> (by the tag of the context element). They are
  parameters of the model. The prototype objects are taken to define no property whose
  name is the string form of a number.
\<close>

record runtime =
  objectProto :: "string \<Rightarrow> jsval option"
  arrayProto :: "string \<Rightarrow> jsval option"
  stringOf :: "jsval \<Rightarrow> string"
  parseFragment :: "string \<Rightarrow> string \<Rightarrow> node list"

text \<open>The \<^verbatim>\<open>I18N\<close> object: the language cache, the current page and the registry.\<close>

record i18n =
  currentLang :: "string option"
  currentPage :: "string option"
  "translations" :: "(string \<times> jsval) list"

text \<open>The browser state the engine reads and writes.\<close>

record browser =
  localStorage :: "(string \<times> string) list"
  navigatorLanguage :: "string option"
  documentLang :: "string option"
  dispatched :: "(string \<times> string) list"

subsection \<open>Truthiness, property reads\<close>

fun truthy :: "jsval \<Rightarrow> bool" where
  "truthy JUndefined = False"
| "truthy JNull = False"
| "truthy (JBool b) = b"
| "truthy (JNum n) = (n \<noteq> 0)"
| "truthy (JStr s) = (s \<noteq> [])"
| "truthy (JArr xs) = True"
| "truthy (JObj ps) = True"
| "truthy (JFunction f) = True"

text \<open>\<^verbatim>\<open>v !== null && v !== undefined\<close> is \<open>\<not> nullish v\<close>.\<close>

fun nullish :: "jsval \<Rightarrow> bool" where
  "nullish JUndefined = True"
| "nullish JNull = True"
| "nullish v = False"

text \<open>\<^verbatim>\<open>key in obj\<close> and \<^verbatim>\<open>obj[key]\<close> for a plain object: own properties first,
  then the prototype.\<close>

definition lookupProp :: "runtime \<Rightarrow> (string \<times> jsval) list \<Rightarrow> string \<Rightarrow> jsval option" where
  "lookupProp rt ps k = (case map_of ps k of Some v \<Rightarrow> Some v | None \<Rightarrow> objectProto rt k)"

definition getProp :: "runtime \<Rightarrow> (string \<times> jsval) list \<Rightarrow> string \<Rightarrow> jsval" where
  "getProp rt ps k = (case lookupProp rt ps k of Some v \<Rightarrow> v | None \<Rightarrow> JUndefined)"

text \<open>The same for an array and a name that is not an index: its \<^verbatim>\<open>length\<close>, then
  the prototypes.\<close>

definition lookupArrayProp :: "runtime \<Rightarrow> jsval list \<Rightarrow> string \<Rightarrow> jsval option" where
  "lookupArrayProp rt xs k =
     (if k = ''length'' then Some (JNum (of_nat (length xs))) else arrayProto rt k)"

text \<open>\<^verbatim>\<open>xs[n]\<close> for an array and a number: \<^verbatim>\<open>undefined\<close> for \<^verbatim>\<open>NaN\<close> (\<open>None\<close>),
  a negative number or an index past the end.\<close>

definition arrayIndex :: "jsval list \<Rightarrow> int option \<Rightarrow> jsval" where
  "arrayIndex xs n =
     (case n of
        None \<Rightarrow> JUndefined
      | Some i \<Rightarrow> if 0 \<le> i \<and> nat i < length xs then xs ! nat i else JUndefined)"

subsection \<open>Strings\<close>

text \<open>
  Strings are lists of characters with codes below 256, read as the code units of the
  same number. In that range the white space that \<^verbatim>\<open>Number\<close> and \<^verbatim>\<open>parseInt\<close>
  strip is the tab, the line feed, the vertical tab, the form feed, the carriage return,
  the space and the no-break space, and \<^verbatim>\<open>toLowerCase\<close> changes the letters
  \<^verbatim>\<open>A\<close> to \<^verbatim>\<open>Z\<close> and the accented capitals with codes 192 to 222 (215, the
  multiplication sign, apart). \<^verbatim>\<open>s.split(c)\<close> for a one-character separator never
  returns an empty array.
\<close>

fun split_where :: "(char \<Rightarrow> bool) \<Rightarrow> string \<Rightarrow> string list" where
  "split_where p [] = [[]]"
| "split_where p (x # xs) =
     (if p x then [] # split_where p xs
      else (case split_where p xs of [] \<Rightarrow> [[x]] | s # ss \<Rightarrow> (x # s) # ss))"

definition split_on :: "char \<Rightarrow> string \<Rightarrow> string list" where
  "split_on c s = split_where (\<lambda>x. x = c) s"

definition is_space :: "char \<Rightarrow> bool" where
  "is_space c = (c \<in> set [CHR '' '', CHR 0x09, CHR 0x0A, CHR 0x0B, CHR 0x0C, CHR 0x0D, CHR 0xA0])"

definition is_digit :: "char \<Rightarrow> bool" where
  "is_digit c = (c \<in> set ''0123456789'')"

definition digit_val :: "char \<Rightarrow> nat" where
  "digit_val c = of_char c - of_char CHR ''0''"

definition is_hex :: "char \<Rightarrow> bool" where
  "is_hex c = (is_digit c \<or> c \<in> set ''abcdef'' \<or> c \<in> set ''ABCDEF'')"

definition hex_val :: "char \<Rightarrow> nat" where
  "hex_val c =
     (if is_digit c then digit_val c
      else if c \<in> set ''abcdef'' then of_char c - of_char CHR ''a'' + 10
      else of_char c - of_char CHR ''A'' + 10)"

definition trim_start :: "string \<Rightarrow> string" where
  "trim_start s = dropWhile is_space s"

definition trim :: "string \<Rightarrow> string" where
  "trim s = rev (dropWhile is_space (rev (dropWhile is_space s)))"

definition strip_sign :: "string \<Rightarrow> string" where
  "strip_sign s = (case s of [] \<Rightarrow> [] | c # cs \<Rightarrow> if c = CHR ''+'' \<or> c = CHR ''-'' then cs else s)"

definition upperLetters :: string where
  "upperLetters =
     ''ABCDEFGHIJKLMNOPQRSTUVWXYZ'' @
       [CHR 0xC0, CHR 0xC1, CHR 0xC2, CHR 0xC3, CHR 0xC4, CHR 0xC5, CHR 0xC6, CHR 0xC7,
        CHR 0xC8, CHR 0xC9, CHR 0xCA, CHR 0xCB, CHR 0xCC, CHR 0xCD, CHR 0xCE, CHR 0xCF,
        CHR 0xD0, CHR 0xD1, CHR 0xD2, CHR 0xD3, CHR 0xD4, CHR 0xD5, CHR 0xD6, CHR 0xD8,
        CHR 0xD9, CHR 0xDA, CHR 0xDB, CHR 0xDC, CHR 0xDD, CHR 0xDE]"

definition lowerLetters :: string where
  "lowerLetters =
     ''abcdefghijklmnopqrstuvwxyz'' @
       [CHR 0xE0, CHR 0xE1, CHR 0xE2, CHR 0xE3, CHR 0xE4, CHR 0xE5, CHR 0xE6, CHR 0xE7,
        CHR 0xE8, CHR 0xE9, CHR 0xEA, CHR 0xEB, CHR 0xEC, CHR 0xED, CHR 0xEE, CHR 0xEF,
        CHR 0xF0, CHR 0xF1, CHR 0xF2, CHR 0xF3, CHR 0xF4, CHR 0xF5, CHR 0xF6, CHR 0xF8,
        CHR 0xF9, CHR 0xFA, CHR 0xFB, CHR 0xFC, CHR 0xFD, CHR 0xFE]"

definition to_lower_char :: "char \<Rightarrow> char" where
  "to_lower_char c =
     (case map_of (zip upperLetters lowerLetters) c of
        Some l \<Rightarrow> l
      | None \<Rightarrow> c)"

definition toLowerCase :: "string \<Rightarrow> string" where
  "toLowerCase s = map to_lower_char s"

text \<open>The value of a digit string in a radix, most significant digit first.\<close>

definition radix_val :: "nat \<Rightarrow> (char \<Rightarrow> nat) \<Rightarrow> string \<Rightarrow> nat" where
  "radix_val r dv s = foldl (\<lambda>acc c. acc * r + dv c) 0 s"

subsection \<open>\<^verbatim>\<open>isNaN\<close> and \<^verbatim>\<open>parseInt\<close> on a string\<close>

text \<open>
  \<^verbatim>\<open>!isNaN(key)\<close> converts the string with \<^verbatim>\<open>Number\<close>: white space is trimmed, the
  empty string is \<open>0\<close>, and the rest must be a decimal literal (optional sign, digits
  with an optional fraction and exponent, or \<^verbatim>\<open>Infinity\<close>) or an unsigned literal with
  prefix \<^verbatim>\<open>0x\<close>, \<^verbatim>\<open>0o\<close> or \<^verbatim>\<open>0b\<close>.
\<close>

definition exponent_ok :: "string \<Rightarrow> bool" where
  "exponent_ok s =
     (case s of
        [] \<Rightarrow> True
      | c # cs \<Rightarrow> (c = CHR ''e'' \<or> c = CHR ''E'') \<and> strip_sign cs \<noteq> [] \<and> list_all is_digit (strip_sign cs))"

definition unsigned_decimal :: "string \<Rightarrow> bool" where
  "unsigned_decimal s =
     (s = ''Infinity'' \<or>
      (let ip = takeWhile is_digit s; r = dropWhile is_digit s in
         case r of
           c # cs \<Rightarrow>
             if c = CHR ''.''
             then (ip \<noteq> [] \<or> takeWhile is_digit cs \<noteq> []) \<and> exponent_ok (dropWhile is_digit cs)
             else ip \<noteq> [] \<and> exponent_ok r
         | [] \<Rightarrow> ip \<noteq> []))"

definition prefixed_literal :: "string \<Rightarrow> bool" where
  "prefixed_literal s =
     (case s of
        z # p # ds \<Rightarrow>
          z = CHR ''0'' \<and> ds \<noteq> [] \<and>
          (if p = CHR ''x'' \<or> p = CHR ''X'' then list_all is_hex ds
           else if p = CHR ''o'' \<or> p = CHR ''O'' then list_all (\<lambda>c. c \<in> set ''01234567'') ds
           else if p = CHR ''b'' \<or> p = CHR ''B'' then list_all (\<lambda>c. c = CHR ''0'' \<or> c = CHR ''1'') ds
           else False)
      | _ \<Rightarrow> False)"

definition is_numeric :: "string \<Rightarrow> bool" where
  "is_numeric s =
     (let u = trim s in u = [] \<or> prefixed_literal u \<or> unsigned_decimal (strip_sign u))"

text \<open>
  \<^verbatim>\<open>parseInt(key)\<close>: leading white space and a sign are dropped, a prefix \<^verbatim>\<open>0x\<close>
  selects radix 16, and the longest run of digits is read; \<open>None\<close> is \<^verbatim>\<open>NaN\<close>.
\<close>

definition parseInt :: "string \<Rightarrow> int option" where
  "parseInt s =
     (let u = trim_start s;
          neg = (case u of [] \<Rightarrow> False | c # _ \<Rightarrow> c = CHR ''-'');
          v = strip_sign u;
          hex = (case v of z # p # _ \<Rightarrow> z = CHR ''0'' \<and> (p = CHR ''x'' \<or> p = CHR ''X'') | _ \<Rightarrow> False);
          ds = (if hex then takeWhile is_hex (drop 2 v) else takeWhile is_digit v);
          n = (if hex then radix_val 16 hex_val ds else radix_val 10 digit_val ds)
      in if ds = [] then None else Some (if neg then - int n else int n))"

section \<open>The key resolver\<close>

text \<open>The loop of \<^verbatim>\<open>getValue\<close> over the segments of the path.\<close>

fun walk :: "runtime \<Rightarrow> jsval \<Rightarrow> string list \<Rightarrow> jsval" where
  "walk rt result [] = result"
| "walk rt result (key # keys) =
     (case result of
        JArr xs \<Rightarrow>
          if is_numeric key then walk rt (arrayIndex xs (parseInt key)) keys
          else (case lookupArrayProp rt xs key of Some v \<Rightarrow> walk rt v keys | None \<Rightarrow> JNull)
      | JObj ps \<Rightarrow>
          (case lookupProp rt ps key of Some v \<Rightarrow> walk rt v keys | None \<Rightarrow> JNull)
      | _ \<Rightarrow> JNull)"

definition getValue :: "runtime \<Rightarrow> jsval \<Rightarrow> string \<Rightarrow> jsval" where
  "getValue rt obj path = (if path = [] then obj else walk rt obj (split_on CHR ''.'' path))"

section \<open>The namespace fallback engine\<close>

text \<open>\<^verbatim>\<open>if (namespace)\<close> and \<^verbatim>\<open>this.currentPage && ...\<close>: the name is neither
  \<^verbatim>\<open>null\<close> nor the empty string.\<close>

definition given :: "string option \<Rightarrow> bool" where
  "given name = (case name of None \<Rightarrow> False | Some n \<Rightarrow> n \<noteq> [])"

text \<open>\<^verbatim>\<open>if (result !== null && result !== undefined) return result\<close>.\<close>

definition found :: "jsval \<Rightarrow> jsval option" where
  "found result = (if nullish result then None else Some result)"

text \<open>The two lists named \<^verbatim>\<open>pageNamespaces\<close>, of the branch with an explicit
  namespace and of the branch without, and the shared pair.\<close>

definition pageNamespaces_explicit :: "string list" where
  "pageNamespaces_explicit = [''solutions'', ''services'', ''index'', ''introduction'', ''contact'']"

definition pageNamespaces_default :: "string list" where
  "pageNamespaces_default = [''services'', ''solutions'', ''index'', ''introduction'', ''contact'']"

definition sharedNamespaces :: "string list" where
  "sharedNamespaces = [''header'', ''footer'']"

text \<open>The loop \<^verbatim>\<open>for (const ns of pageNamespaces)\<close> of the explicit branch, guarded by
  \<^verbatim>\<open>ns !== namespace && this.translations[ns]\<close>.\<close>

fun searchOthers :: "runtime \<Rightarrow> (string \<times> jsval) list \<Rightarrow> string \<Rightarrow> string \<Rightarrow> string list \<Rightarrow> jsval option" where
  "searchOthers rt tr key namespace [] = None"
| "searchOthers rt tr key namespace (ns # rest) =
     (if ns \<noteq> namespace \<and> truthy (getProp rt tr ns)
      then (case found (getValue rt (getProp rt tr ns) key) of
              Some result \<Rightarrow> Some result
            | None \<Rightarrow> searchOthers rt tr key namespace rest)
      else searchOthers rt tr key namespace rest)"

text \<open>The loop over \<^verbatim>\<open>['header', 'footer']\<close> of the explicit branch: no guard.\<close>

fun searchShared :: "runtime \<Rightarrow> (string \<times> jsval) list \<Rightarrow> string \<Rightarrow> string list \<Rightarrow> jsval option" where
  "searchShared rt tr key [] = None"
| "searchShared rt tr key (ns # rest) =
     (case found (getValue rt (getProp rt tr ns) key) of
        Some result \<Rightarrow> Some result
      | None \<Rightarrow> searchShared rt tr key rest)"

text \<open>The two loops of the branch without a namespace, guarded by
  \<^verbatim>\<open>this.translations[ns]\<close>.\<close>

fun searchLoaded :: "runtime \<Rightarrow> (string \<times> jsval) list \<Rightarrow> string \<Rightarrow> string list \<Rightarrow> jsval option" where
  "searchLoaded rt tr key [] = None"
| "searchLoaded rt tr key (ns # rest) =
     (if truthy (getProp rt tr ns)
      then (case found (getValue rt (getProp rt tr ns) key) of
              Some v \<Rightarrow> Some v
            | None \<Rightarrow> searchLoaded rt tr key rest)
      else searchLoaded rt tr key rest)"

text \<open>The part of \<^verbatim>\<open>t\<close> after \<^verbatim>\<open>if (namespace) { ... }\<close>: no namespace was given.\<close>

definition tDefault :: "runtime \<Rightarrow> i18n \<Rightarrow> string \<Rightarrow> jsval" where
  "tDefault rt st key =
     (let tr = translations st in
      case (case currentPage st of
              Some page \<Rightarrow>
                if page \<noteq> [] \<and> truthy (getProp rt tr page)
                then found (getValue rt (getProp rt tr page) key) else None
            | None \<Rightarrow> None) of
        Some v \<Rightarrow> v
      | None \<Rightarrow>
          (case searchLoaded rt tr key pageNamespaces_default of
             Some v \<Rightarrow> v
           | None \<Rightarrow>
               (case searchLoaded rt tr key sharedNamespaces of
                  Some v \<Rightarrow> v
                | None \<Rightarrow> JStr key)))"

text \<open>\<^verbatim>\<open>t(key, namespace)\<close>. The diagnostics written to the console are left out.\<close>

definition t :: "runtime \<Rightarrow> i18n \<Rightarrow> string \<Rightarrow> string option \<Rightarrow> jsval" where
  "t rt st key namespace =
     (let tr = translations st in
      case namespace of
        Some nsp \<Rightarrow>
          if nsp \<noteq> [] then
            (case found (getValue rt (getProp rt tr nsp) key) of
               Some result \<Rightarrow> result
             | None \<Rightarrow>
                 (case (case currentPage st of
                          Some page \<Rightarrow>
                            if page \<noteq> [] \<and> page \<noteq> nsp
                            then found (getValue rt (getProp rt tr page) key) else None
                        | None \<Rightarrow> None) of
                    Some result \<Rightarrow> result
                  | None \<Rightarrow>
                      (case searchOthers rt tr key nsp pageNamespaces_explicit of
                         Some result \<Rightarrow> result
                       | None \<Rightarrow>
                           (case searchShared rt tr key sharedNamespaces of
                              Some result \<Rightarrow> result
                            | None \<Rightarrow> JStr key))))
          else tDefault rt st key
      | None \<Rightarrow> tDefault rt st key)"

section \<open>The language preference store\<close>

text \<open>
  \<^verbatim>\<open>getCurrentLang\<close> after the test of the cache: the stored preference when it is
  one of the two codes, else the browser's language, lower-cased (\<^verbatim>\<open>'zh'\<close> when the
  browser reports none). Reads and writes of the storage are taken to succeed.
\<close>

definition detectLang :: "browser \<Rightarrow> string" where
  "detectLang env =
     (let stored = map_of (localStorage env) ''lang'' in
      if stored = Some ''zh'' \<or> stored = Some ''en''
      then (case stored of Some l \<Rightarrow> l | None \<Rightarrow> [])
      else
        (let browserLang =
               toLowerCase (case navigatorLanguage env of
                              Some l \<Rightarrow> if l \<noteq> [] then l else ''zh''
                            | None \<Rightarrow> ''zh'')
         in if take 2 browserLang = ''zh'' then ''zh'' else ''en''))"

definition getCurrentLang :: "browser \<Rightarrow> i18n \<Rightarrow> string \<times> i18n" where
  "getCurrentLang env st =
     (case currentLang st of
        Some l \<Rightarrow>
          if l \<noteq> [] then (l, st)
          else (detectLang env, st\<lparr>currentLang := Some (detectLang env)\<rparr>)
      | None \<Rightarrow> (detectLang env, st\<lparr>currentLang := Some (detectLang env)\<rparr>))"

text \<open>\<^verbatim>\<open>setLang(lang)\<close> for any argument; an event is recorded as its type and the
  language it carries.\<close>

definition setLang :: "jsval \<Rightarrow> browser \<Rightarrow> i18n \<Rightarrow> browser \<times> i18n" where
  "setLang lang env st =
     (if lang \<noteq> JStr ''zh'' \<and> lang \<noteq> JStr ''en'' then (env, st)
      else
        (case lang of
           JStr l \<Rightarrow>
             (env\<lparr>localStorage := AList.update ''lang'' l (localStorage env),
                  documentLang := Some (if l = ''zh'' then ''zh-CN'' else ''en''),
                  dispatched := dispatched env @ [(''langchange'', l)]\<rparr>,
              st\<lparr>currentLang := Some l\<rparr>)
         | _ \<Rightarrow> (env, st)))"

section \<open>The translation loader\<close>

text \<open>
  What a \<^verbatim>\<open>fetch\<close> settles to: a rejection, or a response with its \<^verbatim>\<open>ok\<close> flag and
  the outcome of \<^verbatim>\<open>res.json()\<close> (\<open>None\<close> when the body does not parse). The network is
  a function from the requested URL to what its fetch settles to.
\<close>

datatype fetched =
    NetworkError
  | Response bool "jsval option"

definition requestUrl :: "string \<Rightarrow> string \<Rightarrow> string \<Rightarrow> string" where
  "requestUrl name lang random = ''content/'' @ name @ ''.'' @ lang @ ''.json?_='' @ random"

text \<open>\<^verbatim>\<open>loadTranslation(name)\<close>: the value its promise resolves to, and the state after
  \<^verbatim>\<open>getCurrentLang\<close>. \<open>random\<close> is the string drawn for the query parameter.\<close>

definition loadTranslation :: "(string \<Rightarrow> fetched) \<Rightarrow> string \<Rightarrow> browser \<Rightarrow> i18n \<Rightarrow> string \<Rightarrow> jsval \<times> i18n" where
  "loadTranslation net random env st name =
     (let (lang, st') = getCurrentLang env st in
      (case net (requestUrl name lang random) of
         NetworkError \<Rightarrow> JObj []
       | Response ok body \<Rightarrow>
           if \<not> ok then JObj []
           else (case body of None \<Rightarrow> JObj [] | Some payload \<Rightarrow> payload),
       st'))"

text \<open>\<^verbatim>\<open>names.map(name => this.loadTranslation(name))\<close>, the \<open>i\<close>-th call drawing
  \<open>rnd i\<close>.\<close>

fun loadEach :: "(string \<Rightarrow> fetched) \<Rightarrow> (nat \<Rightarrow> string) \<Rightarrow> browser \<Rightarrow> nat \<Rightarrow> i18n \<Rightarrow> string list \<Rightarrow> jsval list \<times> i18n" where
  "loadEach net rnd env i st [] = ([], st)"
| "loadEach net rnd env i st (name # names) =
     (let (result, st1) = loadTranslation net (rnd i) env st name;
          (results, st2) = loadEach net rnd env (Suc i) st1 names
      in (result # results, st2))"

text \<open>\<^verbatim>\<open>names.forEach((name, i) => { this.translations[name] = results[i] || {} })\<close>.
  The name \<^verbatim>\<open>__proto__\<close> addresses the prototype slot of the registry object, not an
  entry; the model of the write is for every other name.\<close>

fun storeResults :: "(string \<times> jsval) list \<Rightarrow> string list \<Rightarrow> jsval list \<Rightarrow> (string \<times> jsval) list" where
  "storeResults tr (name # names) (result # results) =
     storeResults (AList.update name (if truthy result then result else JObj []) tr) names results"
| "storeResults tr _ _ = tr"

text \<open>\<^verbatim>\<open>loadTranslations(names)\<close>: the state when the promise of \<^verbatim>\<open>Promise.all\<close> has
  resolved and the registry is written.\<close>

definition loadTranslations :: "(string \<Rightarrow> fetched) \<Rightarrow> (nat \<Rightarrow> string) \<Rightarrow> browser \<Rightarrow> i18n \<Rightarrow> string list \<Rightarrow> i18n" where
  "loadTranslations net rnd env st names =
     (let (results, st') = loadEach net rnd env 0 st names
      in st'\<lparr>translations := storeResults (translations st') names results\<rparr>)"

section \<open>The path resolver\<close>

text \<open>
  \<^verbatim>\<open>path.match(/([^\:\\\/]+)\.html/i)\<close>: the match starts at the leftmost position
  that admits one; there the group takes the longest run of characters other than
  \<^verbatim>\<open>:\<close>, \<^verbatim>\<open>\\<close> and \<^verbatim>\<open>/\<close> and gives characters back until \<^verbatim>\<open>.html\<close>, in either
  case, follows. The result is the group.
\<close>

definition is_path_sep :: "char \<Rightarrow> bool" where
  "is_path_sep c = (c \<in> set [CHR '':'', CHR 0x5C, CHR ''/''])"

definition html_here :: "string \<Rightarrow> bool" where
  "html_here s = (toLowerCase (take 5 s) = ''.html'')"

fun try_group :: "string \<Rightarrow> nat \<Rightarrow> string option" where
  "try_group s 0 = None"
| "try_group s (Suc k) =
     (if html_here (drop (Suc k) s) then Some (take (Suc k) s) else try_group s k)"

fun html_match :: "string \<Rightarrow> string option" where
  "html_match [] = None"
| "html_match (c # cs) =
     (case try_group (c # cs) (length (takeWhile (\<lambda>x. \<not> is_path_sep x) (c # cs))) of
        Some page \<Rightarrow> Some page
      | None \<Rightarrow> html_match cs)"

definition pageMap :: "(string \<times> jsval) list" where
  "pageMap =
     [(''index'', JStr ''index''),
      (''services'', JStr ''services''),
      (''solutions'', JStr ''solutions''),
      (''introduction'', JStr ''introduction''),
      (''contact'', JStr ''contact'')]"

text \<open>\<^verbatim>\<open>pageMap[page] || 'index'\<close>.\<close>

definition mapPage :: "runtime \<Rightarrow> string \<Rightarrow> jsval" where
  "mapPage rt page = (let result = getProp rt pageMap page in if truthy result then result else JStr ''index'')"

text \<open>\<^verbatim>\<open>getPageName()\<close> as a function of \<^verbatim>\<open>window.location.pathname\<close>.\<close>

definition getPageName :: "runtime \<Rightarrow> string \<Rightarrow> jsval" where
  "getPageName rt path =
     (case html_match path of
        Some page \<Rightarrow> mapPage rt (toLowerCase page)
      | None \<Rightarrow>
          (let cleanPath = (if path \<noteq> [] \<and> last path = CHR ''/'' then butlast path else path) in
           if cleanPath = [] \<or> cleanPath = ''/'' then JStr ''index''
           else (case rev (split_on CHR ''/'' cleanPath) of
                   page # _ \<Rightarrow> mapPage rt page
                 | [] \<Rightarrow> JStr ''index'')))"

section \<open>The DOM applicator\<close>

text \<open>
  \<^verbatim>\<open>applyTranslations(root)\<close> works on the descendants of \<open>root\<close>: the scope is the list
  of the children of \<open>root\<close> (for the document, its root element), together with whether
  \<open>root\<close> or one of its ancestors has the class \<^verbatim>\<open>lang-switcher\<close>, which the selector
  \<^verbatim>\<open>.lang-switcher [data-lang]\<close> looks at.

  Each \<^verbatim>\<open>querySelectorAll(...).forEach\<close> runs over the elements that matched before
  the loop started, in document order. A write of \<^verbatim>\<open>textContent\<close> or \<^verbatim>\<open>innerHTML\<close>
  replaces the children of its element, so a later write of the same loop to a former
  descendant changes a node that is no longer in the document, and the elements that
  \<^verbatim>\<open>innerHTML\<close> creates were not in the list. On the document tree such a loop is a
  descent from the top that stops below an element it has written.
\<close>

definition domString :: "runtime \<Rightarrow> jsval \<Rightarrow> string" where
  "domString rt v = (case v of JStr s \<Rightarrow> s | _ \<Rightarrow> stringOf rt v)"

text \<open>\<^verbatim>\<open>el.textContent = s\<close>: the children become one text node, or none for the
  empty string.\<close>

definition textNodes :: "string \<Rightarrow> node list" where
  "textNodes s = (if s = [] then [] else [Text s])"

text \<open>The loop over \<^verbatim>\<open>[data-i18n]\<close>.\<close>

fun translateText :: "runtime \<Rightarrow> i18n \<Rightarrow> node \<Rightarrow> node" where
  "translateText rt st (Text s) = Text s"
| "translateText rt st (Element tag attrs children) =
     (case map_of attrs ''data-i18n'' of
        Some key \<Rightarrow>
          if t rt st key (map_of attrs ''data-i18n-ns'') \<noteq> JStr key
          then Element tag attrs
                 (textNodes (domString rt (t rt st key (map_of attrs ''data-i18n-ns''))))
          else Element tag attrs (map (translateText rt st) children)
      | None \<Rightarrow> Element tag attrs (map (translateText rt st) children))"

text \<open>The loop over \<^verbatim>\<open>[data-i18n-html]\<close>.\<close>

fun translateHtml :: "runtime \<Rightarrow> i18n \<Rightarrow> node \<Rightarrow> node" where
  "translateHtml rt st (Text s) = Text s"
| "translateHtml rt st (Element tag attrs children) =
     (case map_of attrs ''data-i18n-html'' of
        Some key \<Rightarrow>
          if t rt st key (map_of attrs ''data-i18n-ns'') \<noteq> JStr key
          then Element tag attrs
                 (parseFragment rt tag (domString rt (t rt st key (map_of attrs ''data-i18n-ns''))))
          else Element tag attrs (map (translateHtml rt st) children)
      | None \<Rightarrow> Element tag attrs (map (translateHtml rt st) children))"

definition attrAttrs :: "string list" where
  "attrAttrs = [''data-i18n-attr'', ''data-i18n-placeholder'', ''data-i18n-title'', ''data-i18n-alt'']"

text \<open>\<^verbatim>\<open>attr.replace('data-i18n-', '')\<close> for the four names of \<open>attrAttrs\<close>, which
  start with the ten characters replaced.\<close>

definition attrName :: "string \<Rightarrow> string" where
  "attrName attr = drop 10 attr"

text \<open>The body of the loop over \<^verbatim>\<open>[attr]\<close> for one of the four marker attributes,
  on the attributes of an element, and the loop.\<close>

definition writeAttr :: "runtime \<Rightarrow> i18n \<Rightarrow> string \<Rightarrow> (string \<times> string) list \<Rightarrow> (string \<times> string) list" where
  "writeAttr rt st attr attrs =
     (case map_of attrs attr of
        Some key \<Rightarrow>
          if t rt st key (map_of attrs ''data-i18n-ns'') \<noteq> JStr key
          then AList.update (attrName attr)
                 (domString rt (t rt st key (map_of attrs ''data-i18n-ns''))) attrs
          else attrs
      | None \<Rightarrow> attrs)"

fun translateAttr :: "runtime \<Rightarrow> i18n \<Rightarrow> string \<Rightarrow> node \<Rightarrow> node" where
  "translateAttr rt st attr (Text s) = Text s"
| "translateAttr rt st attr (Element tag attrs children) =
     Element tag (writeAttr rt st attr attrs) (map (translateAttr rt st attr) children)"

text \<open>
  \<^verbatim>\<open>classList\<close>: the tokens of the \<^verbatim>\<open>class\<close> attribute are its pieces between ASCII
  white space, each once, in order of first occurrence; a change of the token set writes
  the tokens back joined by single spaces. \<^verbatim>\<open>toggle(token, force)\<close> changes the set
  only when the membership of \<open>token\<close> is not yet \<open>force\<close>.
\<close>

definition is_class_space :: "char \<Rightarrow> bool" where
  "is_class_space c = (c \<in> set [CHR '' '', CHR 0x09, CHR 0x0A, CHR 0x0C, CHR 0x0D])"

definition classTokens :: "string \<Rightarrow> string list" where
  "classTokens s = rev (remdups (rev (filter (\<lambda>w. w \<noteq> []) (split_where is_class_space s))))"

fun joinTokens :: "string list \<Rightarrow> string" where
  "joinTokens [] = []"
| "joinTokens [w] = w"
| "joinTokens (w # v # ws) = w @ CHR '' '' # joinTokens (v # ws)"

definition classList :: "(string \<times> string) list \<Rightarrow> string list" where
  "classList attrs = classTokens (case map_of attrs ''class'' of Some c \<Rightarrow> c | None \<Rightarrow> [])"

definition classToggle :: "string \<Rightarrow> bool \<Rightarrow> (string \<times> string) list \<Rightarrow> (string \<times> string) list" where
  "classToggle token force attrs =
     (if token \<in> set (classList attrs)
      then (if force then attrs
            else AList.update ''class'' (joinTokens (removeAll token (classList attrs))) attrs)
      else (if force then AList.update ''class'' (joinTokens (classList attrs @ [token])) attrs
            else attrs))"

text \<open>The loop over \<^verbatim>\<open>.lang-switcher [data-lang]\<close>, and its body on the attributes
  of an element; \<open>inside\<close> says that an ancestor of the element has the class
  \<^verbatim>\<open>lang-switcher\<close>.\<close>

definition toggleActive :: "string \<Rightarrow> bool \<Rightarrow> (string \<times> string) list \<Rightarrow> (string \<times> string) list" where
  "toggleActive lang inside attrs =
     (case map_of attrs ''data-lang'' of
        Some l \<Rightarrow> if inside then classToggle ''active'' (l = lang) attrs else attrs
      | None \<Rightarrow> attrs)"

definition inSwitcher :: "bool \<Rightarrow> (string \<times> string) list \<Rightarrow> bool" where
  "inSwitcher inside attrs = (inside \<or> ''lang-switcher'' \<in> set (classList attrs))"

fun markSwitcher :: "string \<Rightarrow> bool \<Rightarrow> node \<Rightarrow> node" where
  "markSwitcher lang inside (Text s) = Text s"
| "markSwitcher lang inside (Element tag attrs children) =
     Element tag (toggleActive lang inside attrs)
       (map (markSwitcher lang (inSwitcher inside attrs)) children)"

text \<open>\<^verbatim>\<open>applyTranslations(root)\<close>: the state after \<^verbatim>\<open>getCurrentLang\<close> and the
  descendants of \<open>root\<close> after the four groups of loops.\<close>

definition applyTranslations :: "runtime \<Rightarrow> browser \<Rightarrow> i18n \<Rightarrow> bool \<Rightarrow> node list \<Rightarrow> i18n \<times> node list" where
  "applyTranslations rt env st inside scope =
     (let (lang, st') = getCurrentLang env st;
          afterText = map (translateText rt st') scope;
          afterHtml = map (translateHtml rt st') afterText;
          afterAttrs = foldl (\<lambda>nodes attr. map (translateAttr rt st' attr) nodes) afterHtml attrAttrs
      in (st', map (markSwitcher lang inside) afterAttrs))"

section \<open>Notions of the specification\<close>

subsection \<open>The order of consultation\<close>

text \<open>
  The namespaces \<^verbatim>\<open>t\<close> consults for a call, in order, each with a flag: \<open>True\<close> when
  the code reads the namespace only if its registry entry is truthy. With an explicit
  namespace: that namespace, the current page when it is set and differs, the page list
  without the explicit namespace, then header and footer. Without: the current page when
  it is set, the page list, then header and footer.
\<close>

definition consultPlan :: "i18n \<Rightarrow> string option \<Rightarrow> (string \<times> bool) list" where
  "consultPlan st namespace =
     (if given namespace
      then (case namespace of
              Some nsp \<Rightarrow>
                (nsp, False)
                # (case currentPage st of
                     Some page \<Rightarrow> if page \<noteq> [] \<and> page \<noteq> nsp then [(page, False)] else []
                   | None \<Rightarrow> [])
                @ map (\<lambda>ns. (ns, True)) (filter (\<lambda>ns. ns \<noteq> nsp) pageNamespaces_explicit)
                @ map (\<lambda>ns. (ns, False)) sharedNamespaces
            | None \<Rightarrow> [])
      else (case currentPage st of
              Some page \<Rightarrow> if page \<noteq> [] then [(page, True)] else []
            | None \<Rightarrow> [])
           @ map (\<lambda>ns. (ns, True)) (pageNamespaces_default @ sharedNamespaces))"

definition consultOrder :: "i18n \<Rightarrow> string option \<Rightarrow> string list" where
  "consultOrder st namespace = map fst (consultPlan st namespace)"

text \<open>The first namespace of a plan in which the key resolves, and the value there.\<close>

fun searchPlan :: "runtime \<Rightarrow> (string \<times> jsval) list \<Rightarrow> string \<Rightarrow> (string \<times> bool) list \<Rightarrow> jsval option" where
  "searchPlan rt tr key [] = None"
| "searchPlan rt tr key ((ns, guarded) # rest) =
     (if guarded \<and> \<not> truthy (getProp rt tr ns) then searchPlan rt tr key rest
      else (case found (getValue rt (getProp rt tr ns) key) of
              Some v \<Rightarrow> Some v
            | None \<Rightarrow> searchPlan rt tr key rest))"

text \<open>The payload the registry holds for a namespace (\<^verbatim>\<open>this.translations[ns]\<close>; the
  namespace is loaded when it is truthy), and what the key resolver returns on it.\<close>

definition payloadOf :: "runtime \<Rightarrow> i18n \<Rightarrow> string \<Rightarrow> jsval" where
  "payloadOf rt st ns = getProp rt (translations st) ns"

definition valueIn :: "runtime \<Rightarrow> i18n \<Rightarrow> string \<Rightarrow> string \<Rightarrow> jsval" where
  "valueIn rt st key ns = getValue rt (payloadOf rt st ns) key"

subsection \<open>Rewriting attributes\<close>

text \<open>
  The loops over the marker attributes and the loop over the switcher change attributes
  only. \<open>restyle\<close> is the shape they share: a step on the attributes of every element,
  told whether an ancestor has the class \<^verbatim>\<open>lang-switcher\<close>. \<open>attrSteps\<close> is the step of
  the five loops in sequence.
\<close>

fun restyle :: "(bool \<Rightarrow> (string \<times> string) list \<Rightarrow> (string \<times> string) list) \<Rightarrow> bool \<Rightarrow> node \<Rightarrow> node" where
  "restyle step inside (Text s) = Text s"
| "restyle step inside (Element tag attrs children) =
     Element tag (step inside attrs) (map (restyle step (inSwitcher inside attrs)) children)"

definition attrSteps :: "runtime \<Rightarrow> i18n \<Rightarrow> string \<Rightarrow> bool \<Rightarrow> (string \<times> string) list \<Rightarrow> (string \<times> string) list" where
  "attrSteps rt st lang inside attrs =
     toggleActive lang inside (foldl (\<lambda>x attr. writeAttr rt st attr x) attrs attrAttrs)"

text \<open>The value a marker attribute of an element resolves to, when it is not the key
  itself: what the loops over \<^verbatim>\<open>[data-i18n]\<close> and \<^verbatim>\<open>[data-i18n-html]\<close> write.\<close>

definition hitOf :: "runtime \<Rightarrow> i18n \<Rightarrow> string \<Rightarrow> (string \<times> string) list \<Rightarrow> jsval option" where
  "hitOf rt st marker attrs =
     (case map_of attrs marker of
        Some key \<Rightarrow>
          if t rt st key (map_of attrs ''data-i18n-ns'') \<noteq> JStr key
          then Some (t rt st key (map_of attrs ''data-i18n-ns'')) else None
      | None \<Rightarrow> None)"

text \<open>A list of class tokens as \<open>classTokens\<close> returns it: the tokens are distinct, not
  empty and free of white space.\<close>

definition cleanTokens :: "string list \<Rightarrow> bool" where
  "cleanTokens ws = (distinct ws \<and> list_all (\<lambda>w. w \<noteq> [] \<and> list_all (\<lambda>c. \<not> is_class_space c) w) ws)"

subsection \<open>Outcomes of a load\<close>

text \<open>A fetch has failed when it was rejected, when the response is not a success, or
  when its body does not parse.\<close>

definition failedFetch :: "fetched \<Rightarrow> bool" where
  "failedFetch f = (case f of NetworkError \<Rightarrow> True | Response ok body \<Rightarrow> \<not> ok \<or> body = None)"

text \<open>What the registry is to receive for one fetch: the parsed payload of a successful
  response, and the empty object after a failure or for a payload that is not truthy.\<close>

definition settledPayload :: "fetched \<Rightarrow> jsval" where
  "settledPayload f =
     (case f of
        Response True (Some payload) \<Rightarrow> if truthy payload then payload else JObj []
      | _ \<Rightarrow> JObj [])"

subsection \<open>The key resolver as the specification words it\<close>

text \<open>
  Follows the words of the specification, to be compared with \<open>getValue\<close>: a segment
  parses as a non-negative integer when it is a non-empty string of decimal digits; the
  not-found sentinel is \<^verbatim>\<open>null\<close>.
\<close>

definition is_index :: "string \<Rightarrow> bool" where
  "is_index seg = (seg \<noteq> [] \<and> list_all is_digit seg)"

fun lookup_spec :: "jsval \<Rightarrow> string list \<Rightarrow> jsval" where
  "lookup_spec v [] = v"
| "lookup_spec v (seg # segs) =
     (case v of
        JArr xs \<Rightarrow>
          if is_index seg
          then (if radix_val 10 digit_val seg < length xs
                then lookup_spec (xs ! radix_val 10 digit_val seg) segs else JNull)
          else JNull
      | JObj ps \<Rightarrow> (case map_of ps seg of Some w \<Rightarrow> lookup_spec w segs | None \<Rightarrow> JNull)
      | _ \<Rightarrow> JNull)"

definition resolver_spec :: "jsval \<Rightarrow> string \<Rightarrow> jsval" where
  "resolver_spec payload path =
     (if path = [] then payload else lookup_spec payload (split_on CHR ''.'' path))"

text \<open>Two results are the same when they are equal or both report not-found.\<close>

definition same_result :: "jsval \<Rightarrow> jsval \<Rightarrow> bool" where
  "same_result a b = (a = b \<or> (nullish a \<and> nullish b))"

text \<open>
  A plain walk: along the path no step uses what JavaScript adds to the walk of the
  specification. On a sequence, a segment that is not a decimal numeral makes the step
  plain when \<^verbatim>\<open>Number\<close> rejects it and it names no property of the sequence (its
  \<^verbatim>\<open>length\<close>, an inherited member) that holds a value, or when \<^verbatim>\<open>Number\<close>
  accepts it and \<^verbatim>\<open>parseInt\<close> reads no element that holds a value. On a mapping, a
  segment that is not among its keys makes the step plain when it names no inherited
  member that holds a value. A value is held when it is neither \<^verbatim>\<open>null\<close> nor
  \<^verbatim>\<open>undefined\<close>.
\<close>

fun plain_walk :: "runtime \<Rightarrow> jsval \<Rightarrow> string list \<Rightarrow> bool" where
  "plain_walk rt v [] = True"
| "plain_walk rt v (seg # segs) =
     (case v of
        JArr xs \<Rightarrow>
          if is_index seg
          then (if radix_val 10 digit_val seg < length xs
                then plain_walk rt (xs ! radix_val 10 digit_val seg) segs else True)
          else if is_numeric seg then nullish (arrayIndex xs (parseInt seg))
          else (case lookupArrayProp rt xs seg of None \<Rightarrow> True | Some w \<Rightarrow> nullish w)
      | JObj ps \<Rightarrow>
          (case map_of ps seg of
             Some w \<Rightarrow> plain_walk rt w segs
           | None \<Rightarrow> (case objectProto rt seg of None \<Rightarrow> True | Some w \<Rightarrow> nullish w))
      | _ \<Rightarrow> True)"

definition plain_path :: "runtime \<Rightarrow> jsval \<Rightarrow> string \<Rightarrow> bool" where
  "plain_path rt payload path = plain_walk rt payload (split_on CHR ''.'' path)"

subsection \<open>Sample data\<close>

text \<open>
  A runtime for the examples: the members of \<^verbatim>\<open>Object.prototype\<close> and
  \<^verbatim>\<open>Array.prototype\<close> that every ECMAScript 5 engine defines, a string conversion that
  is exact on strings, booleans and plain objects, and a fragment parser for strings
  without markup.
\<close>

definition objectMembers :: "(string \<times> jsval) list" where
  "objectMembers =
     map (\<lambda>n. (n, JFunction n))
       [''constructor'', ''hasOwnProperty'', ''isPrototypeOf'', ''propertyIsEnumerable'',
        ''toLocaleString'', ''toString'', ''valueOf'']"

definition arrayMembers :: "(string \<times> jsval) list" where
  "arrayMembers =
     map (\<lambda>n. (n, JFunction n))
       [''concat'', ''every'', ''filter'', ''forEach'', ''indexOf'', ''join'', ''lastIndexOf'',
        ''map'', ''pop'', ''push'', ''reduce'', ''reduceRight'', ''reverse'', ''shift'',
        ''slice'', ''some'', ''sort'', ''splice'', ''unshift'']"

definition sampleRuntime :: runtime where
  "sampleRuntime =
     \<lparr>objectProto = map_of objectMembers,
      arrayProto = map_of (arrayMembers @ objectMembers),
      stringOf = (\<lambda>v. case v of
                        JStr s \<Rightarrow> s
                      | JBool b \<Rightarrow> if b then ''true'' else ''false''
                      | JObj ps \<Rightarrow> ''[object Object]''
                      | _ \<Rightarrow> []),
      parseFragment = (\<lambda>tag s. if s = [] then [] else [Text s])\<rparr>"

text \<open>A registry with the page \<^verbatim>\<open>index\<close> current.\<close>

definition sampleState :: i18n where
  "sampleState =
     \<lparr>currentLang = Some ''en'',
      currentPage = Some ''index'',
      translations =
        [(''header'', JObj [(''nav'', JObj [(''home'', JStr ''Home'')])]),
         (''footer'', JObj [(''title'', JStr ''Footer title''), (''rights'', JStr ''All rights reserved'')]),
         (''index'', JObj [(''title'', JStr ''Welcome''), (''lead'', JStr []),
                           (''items'', JArr [JStr ''one'', JStr ''two''])]),
         (''services'', JObj [(''name'', JStr ''Services'')]),
         (''solutions'', JObj [(''name'', JStr ''Solutions''), (''lead'', JStr ''Our solutions'')])]\<rparr>"

text \<open>A network that serves the header file, serves a footer file that does not parse,
  and answers every other request with a response that is not a success; the strings
  drawn for the query parameter; and the names of one load.\<close>

definition sampleNetwork :: "string \<Rightarrow> fetched" where
  "sampleNetwork url =
     (if url = ''content/header.en.json?_=r'' then Response True (Some (JObj [(''nav'', JStr ''Menu'')]))
      else if url = ''content/footer.en.json?_=rx'' then Response True None
      else Response False None)"

definition sampleRandom :: "nat \<Rightarrow> string" where
  "sampleRandom i = CHR ''r'' # replicate i CHR ''x''"

definition sampleNames :: "string list" where
  "sampleNames = [''header'', ''footer'', ''contact'']"

text \<open>The children of a document: a language switcher and elements with markers.\<close>

definition sampleScope :: "node list" where
  "sampleScope =
     [Element ''body'' []
        [Element ''div'' [(''class'', ''lang-switcher'')]
           [Element ''a'' [(''data-lang'', ''zh''), (''class'', ''active'')] [Text ''ZH''],
            Element ''a'' [(''data-lang'', ''en'')] [Text ''EN'']],
         Element ''h1'' [(''data-i18n'', ''title'')] [Text ''old title''],
         Element ''p'' [(''data-i18n-html'', ''rights''), (''data-i18n-ns'', ''footer'')] [],
         Element ''input'' [(''data-i18n-placeholder'', ''name''), (''data-i18n-ns'', ''services'')] [],
         Element ''span'' [(''data-i18n'', ''missing'')] [Text ''kept'']]]"

text \<open>A registry in which the current page stores \<^verbatim>\<open>null\<close> for a key that the
  footer holds: the files \<^verbatim>\<open>{"title": null}\<close> and \<^verbatim>\<open>{"title": "Footer title"}\<close>.\<close>

definition nullTitleState :: i18n where
  "nullTitleState =
     \<lparr>currentLang = Some ''en'',
      currentPage = Some ''services'',
      translations =
        [(''header'', JObj []),
         (''footer'', JObj [(''title'', JStr ''Footer title'')]),
         (''services'', JObj [(''title'', JNull)])]\<rparr>"

definition sampleBrowser :: browser where
  "sampleBrowser =
     \<lparr>localStorage = [(''lang'', ''en'')],
      navigatorLanguage = Some ''zh-CN'',
      documentLang = Some ''en'',
      dispatched = []\<rparr>"

section \<open>Properties of the fallback engine\<close>

text \<open>The loops of \<open>t\<close> are searches through plans, and \<open>t\<close> is one search through the
  plan of the call.\<close>

lemma searchPlan_append:
  "searchPlan rt tr key (xs @ ys) =
     (case searchPlan rt tr key xs of Some v \<Rightarrow> Some v | None \<Rightarrow> searchPlan rt tr key ys)"
  by (induction xs) (auto split: option.splits)

lemma searchLoaded_plan:
  "searchLoaded rt tr key nss = searchPlan rt tr key (map (\<lambda>ns. (ns, True)) nss)"
  by (induction nss) (auto split: option.splits)

lemma searchShared_plan:
  "searchShared rt tr key nss = searchPlan rt tr key (map (\<lambda>ns. (ns, False)) nss)"
  by (induction nss) (auto split: option.splits)

lemma searchOthers_plan:
  "searchOthers rt tr key nsp nss =
     searchPlan rt tr key (map (\<lambda>ns. (ns, True)) (filter (\<lambda>ns. ns \<noteq> nsp) nss))"
  by (induction nss) (auto split: option.splits)

lemma tDefault_plan:
  "tDefault rt st key =
     (case searchPlan rt (translations st) key
             ((case currentPage st of
                 Some page \<Rightarrow> if page \<noteq> [] then [(page, True)] else []
               | None \<Rightarrow> [])
              @ map (\<lambda>ns. (ns, True)) (pageNamespaces_default @ sharedNamespaces)) of
        Some v \<Rightarrow> v
      | None \<Rightarrow> JStr key)"
  by (simp add: tDefault_def searchPlan_append searchLoaded_plan Let_def split: option.splits)

lemma t_plan:
  "t rt st key namespace =
     (case searchPlan rt (translations st) key (consultPlan st namespace) of
        Some v \<Rightarrow> v
      | None \<Rightarrow> JStr key)"
proof (cases "given namespace")
  case False
  then have "t rt st key namespace = tDefault rt st key"
    by (auto simp: t_def given_def split: option.splits)
  with False show ?thesis
    by (simp add: tDefault_plan consultPlan_def)
next
  case True
  then obtain nsp where n: "namespace = Some nsp" "nsp \<noteq> []"
    by (auto simp: given_def split: option.splits)
  show ?thesis
    unfolding n t_def consultPlan_def
    by (simp add: given_def n searchPlan_append searchOthers_plan searchShared_plan Let_def
        split: option.splits)
qed


lemma searchPlan_none:
  "list_all (\<lambda>ns. nullish (getValue rt (getProp rt tr ns) key)) (map fst plan)
   \<Longrightarrow> searchPlan rt tr key plan = None"
  by (induction plan) (auto simp: found_def)

lemma searchPlan_first:
  "list_all (\<lambda>m. nullish (getValue rt (getProp rt tr m) key)) (map fst pre)
   \<Longrightarrow> truthy (getProp rt tr ns) \<Longrightarrow> \<not> nullish (getValue rt (getProp rt tr ns) key)
   \<Longrightarrow> searchPlan rt tr key (pre @ (ns, g) # post) = Some (getValue rt (getProp rt tr ns) key)"
  by (induction pre) (auto simp: found_def)

lemma truthy_not_nullish: "truthy v \<Longrightarrow> \<not> nullish v"
  by (cases v) auto

lemma t_first_hit:
  assumes "consultOrder st namespace = earlier @ ns # later"
    and "list_all (\<lambda>m. nullish (valueIn rt st key m)) earlier"
    and "truthy (payloadOf rt st ns)"
    and "\<not> nullish (valueIn rt st key ns)"
  shows "t rt st key namespace = valueIn rt st key ns"
proof -
  from assms(1) obtain pre g post where
    plan: "consultPlan st namespace = pre @ (ns, g) # post" and pre: "map fst pre = earlier"
    unfolding consultOrder_def
    by (auto simp: map_eq_append_conv Cons_eq_map_conv)
  from assms(2) pre
  have "list_all (\<lambda>m. nullish (getValue rt (getProp rt (translations st) m) key)) (map fst pre)"
    by (simp add: valueIn_def payloadOf_def)
  from searchPlan_first [OF this, of ns g post] assms(3,4)
  show ?thesis
    by (simp add: t_plan plan valueIn_def payloadOf_def)
qed

lemma getValue_empty_key: "getValue rt payload [] = payload"
  by (simp add: getValue_def)

text \<open>
  Claim C5. When the key resolver returns \<^verbatim>\<open>null\<close> or \<^verbatim>\<open>undefined\<close> for the key in
  every namespace consulted for the call, with or without an explicit namespace, \<open>t\<close>
  returns the key itself as a string.
\<close>

theorem t_unresolved_returns_key:
  assumes "list_all (\<lambda>ns. nullish (valueIn rt st key ns)) (consultOrder st namespace)"
  shows "t rt st key namespace = JStr key"
  using assms searchPlan_none [of rt "translations st" key "consultPlan st namespace"]
  by (simp add: t_plan consultOrder_def valueIn_def payloadOf_def)

theorem t_unresolved_returns_key_witness:
  "list_all (\<lambda>ns. nullish (valueIn sampleRuntime sampleState ''missing.key'' ns))
     (consultOrder sampleState None)
   \<and> list_all (\<lambda>ns. nullish (valueIn sampleRuntime sampleState ''missing.key'' ns))
     (consultOrder sampleState (Some ''contact''))
   \<and> t sampleRuntime sampleState ''missing.key'' None = JStr ''missing.key''
   \<and> t sampleRuntime sampleState ''missing.key'' (Some ''contact'') = JStr ''missing.key''"
proof -
  have a: "list_all (\<lambda>ns. nullish (valueIn sampleRuntime sampleState ''missing.key'' ns))
     (consultOrder sampleState None)"
    by code_simp
  have b: "list_all (\<lambda>ns. nullish (valueIn sampleRuntime sampleState ''missing.key'' ns))
     (consultOrder sampleState (Some ''contact''))"
    by code_simp
  show ?thesis
    using a b t_unresolved_returns_key [OF a] t_unresolved_returns_key [OF b] by simp
qed

text \<open>
  Claim C2, as amended. The search goes on past the namespaces in which the key resolver
  returns \<^verbatim>\<open>null\<close> or \<^verbatim>\<open>undefined\<close>: when that is so for every namespace consulted
  before \<open>ns\<close>, and \<open>ns\<close> is loaded and holds a value other than \<^verbatim>\<open>null\<close> and
  \<^verbatim>\<open>undefined\<close> for the key, \<open>t\<close> returns the value of \<open>ns\<close>.
\<close>

theorem t_first_non_null_match:
  assumes "consultOrder st namespace = earlier @ ns # later"
    and "list_all (\<lambda>m. nullish (valueIn rt st key m)) earlier"
    and "truthy (payloadOf rt st ns)"
    and "\<not> nullish (valueIn rt st key ns)"
  shows "t rt st key namespace = valueIn rt st key ns"
  using assms by (rule t_first_hit)

theorem t_first_non_null_match_witness:
  "consultOrder sampleState None = [''index'', ''services''] @ ''solutions'' # [''index'', ''introduction'', ''contact'', ''header'', ''footer'']
   \<and> list_all (\<lambda>m. nullish (valueIn sampleRuntime sampleState ''name'' m)) [''index'']
   \<and> truthy (payloadOf sampleRuntime sampleState ''services'')
   \<and> \<not> nullish (valueIn sampleRuntime sampleState ''name'' ''services'')
   \<and> t sampleRuntime sampleState ''name'' None = JStr ''Services''"
proof -
  have a: "consultOrder sampleState None = [''index''] @ ''services'' # [''solutions'', ''index'', ''introduction'', ''contact'', ''header'', ''footer'']"
    by code_simp
  have b: "list_all (\<lambda>m. nullish (valueIn sampleRuntime sampleState ''name'' m)) [''index'']"
    by code_simp
  have c: "truthy (payloadOf sampleRuntime sampleState ''services'')"
    by code_simp
  have d: "\<not> nullish (valueIn sampleRuntime sampleState ''name'' ''services'')"
    by code_simp
  have e: "valueIn sampleRuntime sampleState ''name'' ''services'' = JStr ''Services''"
    by code_simp
  show ?thesis
    using a b c d e t_first_non_null_match [OF a b c d] by simp
qed

text \<open>
  Claim C2, as stated, fails: the current page \<^verbatim>\<open>index\<close> is consulted first and
  stores the empty string for \<^verbatim>\<open>lead\<close>, the namespace \<^verbatim>\<open>solutions\<close> is consulted
  later and stores a non-empty string, and \<open>t\<close> returns the empty string.
\<close>

theorem empty_match_stops_search:
  "consultOrder sampleState None
     = [''index'', ''services'', ''solutions'', ''index'', ''introduction'', ''contact'', ''header'', ''footer'']
   \<and> valueIn sampleRuntime sampleState ''lead'' ''index'' = JStr []
   \<and> valueIn sampleRuntime sampleState ''lead'' ''solutions'' = JStr ''Our solutions''
   \<and> t sampleRuntime sampleState ''lead'' None = JStr []
   \<and> t sampleRuntime sampleState ''lead'' None \<noteq> JStr ''Our solutions''"
  by code_simp

text \<open>
  Claim C1, as amended. Without an explicit namespace the namespaces are consulted in
  the order: the current page, then \<^verbatim>\<open>services\<close>, \<^verbatim>\<open>solutions\<close>, \<^verbatim>\<open>index\<close>,
  \<^verbatim>\<open>introduction\<close>, \<^verbatim>\<open>contact\<close>, then \<^verbatim>\<open>header\<close>, then \<^verbatim>\<open>footer\<close>; \<open>t\<close>
  returns the first value found by one search of the loaded namespaces in that order.
  In particular, when the current page is loaded and the key resolver returns for the key
  a value other than \<^verbatim>\<open>null\<close> and \<^verbatim>\<open>undefined\<close> on its payload, that value is
  returned whatever the footer holds for the key.
\<close>

theorem t_default_order:
  assumes "\<not> given namespace"
  shows "consultOrder st namespace =
           (case currentPage st of Some page \<Rightarrow> if page \<noteq> [] then [page] else [] | None \<Rightarrow> [])
           @ [''services'', ''solutions'', ''index'', ''introduction'', ''contact'', ''header'', ''footer'']
       \<and> t rt st key namespace =
           (case searchLoaded rt (translations st) key (consultOrder st namespace) of
              Some v \<Rightarrow> v
            | None \<Rightarrow> JStr key)
       \<and> (\<forall>page. currentPage st = Some page \<and> page \<noteq> [] \<and> truthy (payloadOf rt st page)
                  \<and> \<not> nullish (valueIn rt st key page)
             \<longrightarrow> t rt st key namespace = valueIn rt st key page)"
proof (intro conjI allI impI)
  show "consultOrder st namespace =
           (case currentPage st of Some page \<Rightarrow> if page \<noteq> [] then [page] else [] | None \<Rightarrow> [])
           @ [''services'', ''solutions'', ''index'', ''introduction'', ''contact'', ''header'', ''footer'']"
    using assms
    by (simp add: consultOrder_def consultPlan_def pageNamespaces_default_def sharedNamespaces_def
        split: option.splits)
next
  have "consultPlan st namespace = map (\<lambda>ns. (ns, True)) (consultOrder st namespace)"
    using assms by (simp add: consultOrder_def consultPlan_def comp_def split: option.splits)
  then show "t rt st key namespace =
           (case searchLoaded rt (translations st) key (consultOrder st namespace) of
              Some v \<Rightarrow> v
            | None \<Rightarrow> JStr key)"
    by (simp add: t_plan searchLoaded_plan)
next
  fix page
  assume h: "currentPage st = Some page \<and> page \<noteq> [] \<and> truthy (payloadOf rt st page)
                  \<and> \<not> nullish (valueIn rt st key page)"
  with assms have "consultPlan st namespace
      = [] @ (page, True) # map (\<lambda>ns. (ns, True)) (pageNamespaces_default @ sharedNamespaces)"
    by (simp add: consultPlan_def)
  with h searchPlan_first [of rt "translations st" key "[]" page True]
  show "t rt st key namespace = valueIn rt st key page"
    by (simp add: t_plan valueIn_def payloadOf_def)
qed

theorem t_default_order_witness:
  "\<not> given None
   \<and> consultOrder sampleState None =
       [''index'', ''services'', ''solutions'', ''index'', ''introduction'', ''contact'', ''header'', ''footer'']
   \<and> valueIn sampleRuntime sampleState ''title'' ''index'' = JStr ''Welcome''
   \<and> valueIn sampleRuntime sampleState ''title'' ''footer'' = JStr ''Footer title''
   \<and> t sampleRuntime sampleState ''title'' None = JStr ''Welcome''
   \<and> t sampleRuntime sampleState ''rights'' None = JStr ''All rights reserved''"
proof -
  have g: "\<not> given None"
    by (simp add: given_def)
  have p: "currentPage sampleState = Some ''index'' \<and> ''index'' \<noteq> []
      \<and> truthy (payloadOf sampleRuntime sampleState ''index'')
      \<and> \<not> nullish (valueIn sampleRuntime sampleState ''title'' ''index'')"
    by code_simp
  have v: "valueIn sampleRuntime sampleState ''title'' ''index'' = JStr ''Welcome''"
    "valueIn sampleRuntime sampleState ''title'' ''footer'' = JStr ''Footer title''"
    by code_simp+
  have r: "(case searchLoaded sampleRuntime (translations sampleState) ''rights''
             (consultOrder sampleState None) of Some v \<Rightarrow> v | None \<Rightarrow> JStr ''rights'')
           = JStr ''All rights reserved''"
    by code_simp
  have o: "(case currentPage sampleState of Some page \<Rightarrow> if page \<noteq> [] then [page] else [] | None \<Rightarrow> [])
           @ [''services'', ''solutions'', ''index'', ''introduction'', ''contact'', ''header'', ''footer'']
       = [''index'', ''services'', ''solutions'', ''index'', ''introduction'', ''contact'', ''header'', ''footer'']"
    by code_simp
  note T = t_default_order [OF g, of sampleState sampleRuntime "''title''"]
  note R = t_default_order [OF g, of sampleState sampleRuntime "''rights''"]
  have 1: "consultOrder sampleState None =
       [''index'', ''services'', ''solutions'', ''index'', ''introduction'', ''contact'', ''header'', ''footer'']"
    using T [THEN conjunct1] by (simp only: o)
  have "t sampleRuntime sampleState ''title'' None = valueIn sampleRuntime sampleState ''title'' ''index''"
    using T [THEN conjunct2, THEN conjunct2, THEN spec, of "''index''"] p by blast
  then have 2: "t sampleRuntime sampleState ''title'' None = JStr ''Welcome''"
    by (simp only: v)
  have 3: "t sampleRuntime sampleState ''rights'' None = JStr ''All rights reserved''"
    using R [THEN conjunct2, THEN conjunct1] by (simp only: r)
  from g 1 2 3 v show ?thesis by simp
qed

text \<open>
  Claim C1, as stated, fails. The current page \<^verbatim>\<open>services\<close> stores \<^verbatim>\<open>null\<close> for
  the key \<^verbatim>\<open>title\<close> and the footer stores a string for it: the key is present in both
  payloads with different values, the test \<^verbatim>\<open>value !== null\<close> passes over the value
  of the page, and \<open>t\<close> returns the value of the footer.
\<close>

theorem null_page_value_yields_footer:
  "currentPage nullTitleState = Some ''services''
   \<and> payloadOf sampleRuntime nullTitleState ''services'' = JObj [(''title'', JNull)]
   \<and> payloadOf sampleRuntime nullTitleState ''footer'' = JObj [(''title'', JStr ''Footer title'')]
   \<and> valueIn sampleRuntime nullTitleState ''title'' ''services'' = JNull
   \<and> t sampleRuntime nullTitleState ''title'' None = JStr ''Footer title''
   \<and> t sampleRuntime nullTitleState ''title'' None \<noteq> valueIn sampleRuntime nullTitleState ''title'' ''services''"
  by code_simp

text \<open>
  Claim C9. When the first namespace consulted for a call is loaded, with payload \<open>P\<close>,
  \<open>t\<close> returns \<open>P\<close> itself for the empty key, and not the empty key.
\<close>

theorem t_empty_key_returns_payload:
  assumes "consultOrder st namespace = ns # later"
    and "truthy (payloadOf rt st ns)"
  shows "t rt st [] namespace = payloadOf rt st ns \<and> t rt st [] namespace \<noteq> JStr []"
proof -
  from assms(1) obtain g post where plan: "consultPlan st namespace = [] @ (ns, g) # post"
    by (auto simp: consultOrder_def Cons_eq_map_conv)
  from assms(2) have nn: "\<not> nullish (getValue rt (getProp rt (translations st) ns) [])"
    by (simp add: getValue_empty_key payloadOf_def truthy_not_nullish)
  from searchPlan_first [of rt "translations st" "[]" "[]" ns g post] assms(2) nn
  have "t rt st [] namespace = payloadOf rt st ns"
    by (simp add: t_plan plan payloadOf_def getValue_empty_key)
  moreover from assms(2) have "payloadOf rt st ns \<noteq> JStr []"
    by auto
  ultimately show ?thesis by simp
qed

theorem t_empty_key_returns_payload_witness:
  "consultOrder sampleState None
     = ''index'' # [''services'', ''solutions'', ''index'', ''introduction'', ''contact'', ''header'', ''footer'']
   \<and> consultOrder sampleState (Some ''footer'')
     = ''footer'' # [''index'', ''solutions'', ''services'', ''index'', ''introduction'', ''contact'', ''header'', ''footer'']
   \<and> truthy (payloadOf sampleRuntime sampleState ''index'')
   \<and> truthy (payloadOf sampleRuntime sampleState ''footer'')
   \<and> t sampleRuntime sampleState [] None
     = JObj [(''title'', JStr ''Welcome''), (''lead'', JStr []), (''items'', JArr [JStr ''one'', JStr ''two''])]
   \<and> t sampleRuntime sampleState [] (Some ''footer'')
     = JObj [(''title'', JStr ''Footer title''), (''rights'', JStr ''All rights reserved'')]"
proof -
  have a: "consultOrder sampleState None
     = ''index'' # [''services'', ''solutions'', ''index'', ''introduction'', ''contact'', ''header'', ''footer'']"
    by code_simp
  have b: "consultOrder sampleState (Some ''footer'')
     = ''footer'' # [''index'', ''solutions'', ''services'', ''index'', ''introduction'', ''contact'', ''header'', ''footer'']"
    by code_simp
  have c: "truthy (payloadOf sampleRuntime sampleState ''index'')"
    by code_simp
  have d: "truthy (payloadOf sampleRuntime sampleState ''footer'')"
    by code_simp
  have e: "payloadOf sampleRuntime sampleState ''index''
     = JObj [(''title'', JStr ''Welcome''), (''lead'', JStr []), (''items'', JArr [JStr ''one'', JStr ''two''])]"
    by code_simp
  have f: "payloadOf sampleRuntime sampleState ''footer''
     = JObj [(''title'', JStr ''Footer title''), (''rights'', JStr ''All rights reserved'')]"
    by code_simp
  show ?thesis
    using a b c d e f t_empty_key_returns_payload [OF a c] t_empty_key_returns_payload [OF b d]
    by simp
qed

text \<open>
  Claim C10. The page list of the branch with an explicit namespace has \<^verbatim>\<open>solutions\<close>
  before \<^verbatim>\<open>services\<close>, the other has \<^verbatim>\<open>services\<close> first: when the explicit
  namespace and the current page lack the key and both \<^verbatim>\<open>services\<close> and
  \<^verbatim>\<open>solutions\<close> hold it, \<open>t\<close> returns the value of \<^verbatim>\<open>solutions\<close> with the
  explicit namespace and the value of \<^verbatim>\<open>services\<close> without.
\<close>

theorem page_lists_differ:
  assumes "nsp \<noteq> []"
    and "nullish (valueIn rt st key nsp)"
    and "case currentPage st of Some page \<Rightarrow> nullish (valueIn rt st key page) | None \<Rightarrow> True"
    and "truthy (payloadOf rt st ''services'')" and "\<not> nullish (valueIn rt st key ''services'')"
    and "truthy (payloadOf rt st ''solutions'')" and "\<not> nullish (valueIn rt st key ''solutions'')"
  shows "t rt st key (Some nsp) = valueIn rt st key ''solutions''
       \<and> t rt st key None = valueIn rt st key ''services''"
proof
  have ne: "nsp \<noteq> ''solutions''"
    using assms(2,7) by auto
  obtain pre post where o: "consultOrder st (Some nsp) = pre @ ''solutions'' # post"
    and pre: "set pre \<subseteq> {nsp} \<union> (case currentPage st of Some page \<Rightarrow> {page} | None \<Rightarrow> {})"
  proof (cases "currentPage st")
    case None
    with assms(1) ne
    have "consultOrder st (Some nsp) = [nsp] @ ''solutions'' # filter (\<lambda>ns. ns \<noteq> nsp) [''services'', ''index'', ''introduction'', ''contact''] @ sharedNamespaces"
      by (simp add: consultOrder_def consultPlan_def given_def pageNamespaces_explicit_def comp_def)
    then show ?thesis using that [of "[nsp]"] None by simp
  next
    case (Some page)
    show ?thesis
    proof (cases "page \<noteq> [] \<and> page \<noteq> nsp")
      case True
      with Some assms(1) ne
      have "consultOrder st (Some nsp) = [nsp, page] @ ''solutions'' # filter (\<lambda>ns. ns \<noteq> nsp) [''services'', ''index'', ''introduction'', ''contact''] @ sharedNamespaces"
        by (simp add: consultOrder_def consultPlan_def given_def pageNamespaces_explicit_def comp_def)
      then show ?thesis using that [of "[nsp, page]"] Some by simp
    next
      case False
      with Some assms(1) ne
      have "consultOrder st (Some nsp) = [nsp] @ ''solutions'' # filter (\<lambda>ns. ns \<noteq> nsp) [''services'', ''index'', ''introduction'', ''contact''] @ sharedNamespaces"
        by (auto simp add: consultOrder_def consultPlan_def given_def pageNamespaces_explicit_def comp_def)
      then show ?thesis using that [of "[nsp]"] Some by simp
    qed
  qed
  from pre assms(2,3) have "list_all (\<lambda>m. nullish (valueIn rt st key m)) pre"
    by (auto simp: list_all_iff split: option.splits)
  from t_first_hit [OF o this assms(6,7)]
  show "t rt st key (Some nsp) = valueIn rt st key ''solutions''" .
next
  obtain pre post where o: "consultOrder st None = pre @ ''services'' # post"
    and pre: "set pre \<subseteq> (case currentPage st of Some page \<Rightarrow> {page} | None \<Rightarrow> {})"
  proof (cases "currentPage st")
    case None
    then have "consultOrder st None = [] @ ''services'' # [''solutions'', ''index'', ''introduction'', ''contact''] @ sharedNamespaces"
      by (simp add: consultOrder_def consultPlan_def given_def pageNamespaces_default_def comp_def)
    then show ?thesis using that [of "[]"] None by simp
  next
    case (Some page)
    show ?thesis
    proof (cases "page \<noteq> []")
      case True
      with Some
      have "consultOrder st None = [page] @ ''services'' # [''solutions'', ''index'', ''introduction'', ''contact''] @ sharedNamespaces"
        by (simp add: consultOrder_def consultPlan_def given_def pageNamespaces_default_def comp_def)
      then show ?thesis using that [of "[page]"] Some by simp
    next
      case False
      with Some
      have "consultOrder st None = [] @ ''services'' # [''solutions'', ''index'', ''introduction'', ''contact''] @ sharedNamespaces"
        by (simp add: consultOrder_def consultPlan_def given_def pageNamespaces_default_def comp_def)
      then show ?thesis using that [of "[]"] Some by simp
    qed
  qed
  from pre assms(3) have "list_all (\<lambda>m. nullish (valueIn rt st key m)) pre"
    by (auto simp: list_all_iff split: option.splits)
  from t_first_hit [OF o this assms(4,5)]
  show "t rt st key None = valueIn rt st key ''services''" .
qed

theorem page_lists_differ_witness:
  "''contact'' \<noteq> []
   \<and> nullish (valueIn sampleRuntime sampleState ''name'' ''contact'')
   \<and> (case currentPage sampleState of
         Some page \<Rightarrow> nullish (valueIn sampleRuntime sampleState ''name'' page)
       | None \<Rightarrow> True)
   \<and> truthy (payloadOf sampleRuntime sampleState ''services'')
   \<and> truthy (payloadOf sampleRuntime sampleState ''solutions'')
   \<and> t sampleRuntime sampleState ''name'' (Some ''contact'') = JStr ''Solutions''
   \<and> t sampleRuntime sampleState ''name'' None = JStr ''Services''"
proof -
  have a: "''contact'' \<noteq> []"
    by simp
  have b: "nullish (valueIn sampleRuntime sampleState ''name'' ''contact'')"
    by code_simp
  have c: "case currentPage sampleState of
             Some page \<Rightarrow> nullish (valueIn sampleRuntime sampleState ''name'' page)
           | None \<Rightarrow> True"
    by code_simp
  have d: "truthy (payloadOf sampleRuntime sampleState ''services'')"
    by code_simp
  have e: "\<not> nullish (valueIn sampleRuntime sampleState ''name'' ''services'')"
    by code_simp
  have f: "truthy (payloadOf sampleRuntime sampleState ''solutions'')"
    by code_simp
  have g: "\<not> nullish (valueIn sampleRuntime sampleState ''name'' ''solutions'')"
    by code_simp
  have v: "valueIn sampleRuntime sampleState ''name'' ''solutions'' = JStr ''Solutions''"
    "valueIn sampleRuntime sampleState ''name'' ''services'' = JStr ''Services''"
    by code_simp+
  show ?thesis
    using a b c d f v page_lists_differ [OF a b c d e f g] by simp
qed

section \<open>Properties of the language store and the path resolver\<close>

text \<open>
  Claim C6. \<open>setLang\<close> with a value other than the strings \<^verbatim>\<open>zh\<close> and \<^verbatim>\<open>en\<close>
  changes nothing: the cache, the stored preference and the language attribute of the
  document stay as they were and no event is dispatched. With one of the two codes the
  cache and the stored preference become the code, the language attribute becomes
  \<^verbatim>\<open>zh-CN\<close> or \<^verbatim>\<open>en\<close>, and one \<^verbatim>\<open>langchange\<close> event carrying the code is
  dispatched.
\<close>

theorem setLang_effects:
  "(lang \<noteq> JStr ''zh'' \<and> lang \<noteq> JStr ''en'' \<longrightarrow> setLang lang env st = (env, st))
   \<and> (l = ''zh'' \<or> l = ''en'' \<longrightarrow>
        currentLang (snd (setLang (JStr l) env st)) = Some l
        \<and> map_of (localStorage (fst (setLang (JStr l) env st))) ''lang'' = Some l
        \<and> documentLang (fst (setLang (JStr l) env st)) = Some (if l = ''zh'' then ''zh-CN'' else ''en'')
        \<and> dispatched (fst (setLang (JStr l) env st)) = dispatched env @ [(''langchange'', l)])"
  by (auto simp: setLang_def update_conv')

theorem setLang_effects_witness:
  "setLang (JStr ''fr'') sampleBrowser sampleState = (sampleBrowser, sampleState)
   \<and> setLang (JStr ''ZH'') sampleBrowser sampleState = (sampleBrowser, sampleState)
   \<and> setLang JNull sampleBrowser sampleState = (sampleBrowser, sampleState)
   \<and> currentLang (snd (setLang (JStr ''zh'') sampleBrowser sampleState)) = Some ''zh''
   \<and> map_of (localStorage (fst (setLang (JStr ''zh'') sampleBrowser sampleState))) ''lang'' = Some ''zh''
   \<and> documentLang (fst (setLang (JStr ''zh'') sampleBrowser sampleState)) = Some ''zh-CN''
   \<and> dispatched (fst (setLang (JStr ''zh'') sampleBrowser sampleState)) = [(''langchange'', ''zh'')]"
  using setLang_effects [of "JStr ''fr''" sampleBrowser sampleState "''zh''"]
    setLang_effects [of "JStr ''ZH''" sampleBrowser sampleState "''zh''"]
    setLang_effects [of JNull sampleBrowser sampleState "''zh''"]
  by (simp add: sampleBrowser_def)

text \<open>
  Claim C7. The page name is a function of the path with
  \<^verbatim>\<open>/services.html\<close> \<open>\<mapsto>\<close> \<^verbatim>\<open>services\<close>, \<^verbatim>\<open>/\<close> \<open>\<mapsto>\<close> \<^verbatim>\<open>index\<close>,
  \<^verbatim>\<open>/solutions/\<close> \<open>\<mapsto>\<close> \<^verbatim>\<open>solutions\<close> and, \<^verbatim>\<open>unknown-page\<close> being no member of
  the prototype of the page map, \<^verbatim>\<open>/unknown-page.html\<close> \<open>\<mapsto>\<close> \<^verbatim>\<open>index\<close>.
\<close>

theorem getPageName_scenarios:
  "getPageName rt ''/services.html'' = JStr ''services''
   \<and> getPageName rt ''/'' = JStr ''index''
   \<and> getPageName rt ''/solutions/'' = JStr ''solutions''
   \<and> (objectProto rt ''unknown-page'' = None \<longrightarrow> getPageName rt ''/unknown-page.html'' = JStr ''index'')"
proof (intro conjI impI)
  have m: "html_match ''/services.html'' = Some ''services''"
    by code_simp
  show "getPageName rt ''/services.html'' = JStr ''services''"
    unfolding getPageName_def m
    by (simp add: toLowerCase_def to_lower_char_def upperLetters_def lowerLetters_def
        mapPage_def getProp_def lookupProp_def pageMap_def)
next
  have m: "html_match ''/'' = None"
    by code_simp
  show "getPageName rt ''/'' = JStr ''index''"
    unfolding getPageName_def m by simp
next
  have m: "html_match ''/solutions/'' = None"
    by code_simp
  have s: "split_on CHR ''/'' ''/solutions'' = [[], ''solutions'']"
    by code_simp
  show "getPageName rt ''/solutions/'' = JStr ''solutions''"
    unfolding getPageName_def m
    by (simp add: s mapPage_def getProp_def lookupProp_def pageMap_def)
next
  assume h: "objectProto rt ''unknown-page'' = None"
  have m: "html_match ''/unknown-page.html'' = Some ''unknown-page''"
    by code_simp
  show "getPageName rt ''/unknown-page.html'' = JStr ''index''"
    unfolding getPageName_def m
    by (simp add: toLowerCase_def to_lower_char_def upperLetters_def lowerLetters_def
        mapPage_def getProp_def lookupProp_def pageMap_def h)
qed

theorem getPageName_scenarios_witness:
  "objectProto sampleRuntime ''unknown-page'' = None
   \<and> getPageName sampleRuntime ''/services.html'' = JStr ''services''
   \<and> getPageName sampleRuntime ''/'' = JStr ''index''
   \<and> getPageName sampleRuntime ''/solutions/'' = JStr ''solutions''
   \<and> getPageName sampleRuntime ''/unknown-page.html'' = JStr ''index''"
proof -
  have h: "objectProto sampleRuntime ''unknown-page'' = None"
    by code_simp
  show ?thesis
    using h getPageName_scenarios [of sampleRuntime] by simp
qed

section \<open>Properties of the loader\<close>

lemma detectLang_nonempty: "detectLang env \<noteq> []"
  by (auto simp: detectLang_def Let_def)

lemma getCurrentLang_again:
  "getCurrentLang env (snd (getCurrentLang env st)) = getCurrentLang env st"
  by (auto simp: getCurrentLang_def detectLang_nonempty split: option.splits)

lemma getCurrentLang_translations:
  "translations (snd (getCurrentLang env st)) = translations st"
  "currentPage (snd (getCurrentLang env st)) = currentPage st"
  by (auto simp: getCurrentLang_def split: option.splits)

lemma loadTranslation_eq:
  "loadTranslation net random env st name =
     ((case net (requestUrl name (fst (getCurrentLang env st)) random) of
         NetworkError \<Rightarrow> JObj []
       | Response ok body \<Rightarrow>
           if \<not> ok then JObj [] else (case body of None \<Rightarrow> JObj [] | Some payload \<Rightarrow> payload)),
      snd (getCurrentLang env st))"
  by (simp add: loadTranslation_def split: prod.splits)

lemma stored_settled:
  "(let r = fst (loadTranslation net random env st name) in if truthy r then r else JObj [])
     = settledPayload (net (requestUrl name (fst (getCurrentLang env st)) random))"
  by (auto simp: loadTranslation_eq settledPayload_def Let_def split: fetched.splits option.splits bool.splits)

lemma loadEach_Cons:
  "loadEach net rnd env i st (name # names) =
     (fst (loadTranslation net (rnd i) env st name)
        # fst (loadEach net rnd env (Suc i) (snd (loadTranslation net (rnd i) env st name)) names),
      snd (loadEach net rnd env (Suc i) (snd (loadTranslation net (rnd i) env st name)) names))"
  by (simp split: prod.splits)

lemma loadEach_state:
  "names \<noteq> [] \<Longrightarrow> snd (loadEach net rnd env i st names) = snd (getCurrentLang env st)"
proof (induction names arbitrary: i st)
  case Nil
  then show ?case by simp
next
  case (Cons name names)
  show ?case
  proof (cases names)
    case Nil
    then show ?thesis by (simp add: loadTranslation_eq)
  next
    case (Cons a list)
    with Cons.IH [of "Suc i" "snd (getCurrentLang env st)"]
    show ?thesis
      by (simp add: loadEach_Cons loadTranslation_eq getCurrentLang_again del: loadEach.simps(2))
  qed
qed

lemma loadEach_length: "length (fst (loadEach net rnd env i st names)) = length names"
  by (induction names arbitrary: i st) (simp_all add: loadEach_Cons del: loadEach.simps(2))

lemma loadEach_nth:
  "k < length names \<Longrightarrow>
   fst (loadEach net rnd env i st names) ! k
     = fst (loadTranslation net (rnd (i + k)) env st (names ! k))"
proof (induction names arbitrary: i st k)
  case Nil
  then show ?case by simp
next
  case (Cons name names)
  show ?case
  proof (cases k)
    case 0
    then show ?thesis by (simp add: loadEach_Cons del: loadEach.simps(2))
  next
    case (Suc j)
    with Cons.prems have j: "j < length names" by simp
    have "fst (loadEach net rnd env (Suc i) (snd (getCurrentLang env st)) names) ! j
        = fst (loadTranslation net (rnd (Suc i + j)) env (snd (getCurrentLang env st)) (names ! j))"
      by (rule Cons.IH [OF j])
    then show ?thesis
      using Suc
      by (simp add: loadEach_Cons loadTranslation_eq getCurrentLang_again del: loadEach.simps(2))
  qed
qed

lemma storeResults_other:
  "n \<notin> set names \<Longrightarrow> map_of (storeResults tr names results) n = map_of tr n"
  by (induction tr names results rule: storeResults.induct) (auto simp: update_conv')

lemma storeResults_nth:
  "length results = length names \<Longrightarrow> i < length names \<Longrightarrow> names ! i \<notin> set (drop (Suc i) names)
   \<Longrightarrow> map_of (storeResults tr names results) (names ! i)
       = Some (if truthy (results ! i) then results ! i else JObj [])"
proof (induction tr names results arbitrary: i rule: storeResults.induct)
  case (1 tr name names result results)
  show ?case
  proof (cases i)
    case 0
    with "1.prems" show ?thesis
      by (simp add: storeResults_other update_conv')
  next
    case (Suc j)
    with "1.prems" "1.IH" [of j] show ?thesis by simp
  qed
qed simp_all


text \<open>
  Claim C4. A load never ends in an error: the promise of \<open>loadTranslation\<close> resolves to
  the empty object when the fetch is rejected, when the response is not a success and
  when the body does not parse. The aggregate load is a function of what every fetch
  settled to: for a list of namespace names (the slot name \<^verbatim>\<open>__proto__\<close> apart) the
  entry of each name is what the fetch at its position settled to (for a name requested
  more than once, at its last position), whatever the other fetches did, and the entries
  of the names not requested are kept.
\<close>

theorem loadTranslations_degrades:
  assumes "''__proto__'' \<notin> set names"
  shows "(\<forall>name random. failedFetch (net (requestUrl name (fst (getCurrentLang env st)) random))
            \<longrightarrow> fst (loadTranslation net random env st name) = JObj [])
       \<and> (\<forall>i < length names. names ! i \<notin> set (drop (Suc i) names)
            \<longrightarrow> payloadOf rt (loadTranslations net rnd env st names) (names ! i)
                = settledPayload (net (requestUrl (names ! i) (fst (getCurrentLang env st)) (rnd i))))
       \<and> (\<forall>ns. ns \<notin> set names
            \<longrightarrow> payloadOf rt (loadTranslations net rnd env st names) ns = payloadOf rt st ns)"
proof (intro conjI allI impI)
  fix name random
  assume "failedFetch (net (requestUrl name (fst (getCurrentLang env st)) random))"
  then show "fst (loadTranslation net random env st name) = JObj []"
    by (auto simp: loadTranslation_eq failedFetch_def split: fetched.splits)
next
  fix i
  assume i: "i < length names" and last: "names ! i \<notin> set (drop (Suc i) names)"
  let ?results = "fst (loadEach net rnd env 0 st names)"
  let ?st' = "snd (loadEach net rnd env 0 st names)"
  have tr: "translations (loadTranslations net rnd env st names)
      = storeResults (translations ?st') names ?results"
    by (simp add: loadTranslations_def split: prod.splits)
  have "map_of (storeResults (translations ?st') names ?results) (names ! i)
      = Some (if truthy (?results ! i) then ?results ! i else JObj [])"
    by (rule storeResults_nth [OF loadEach_length i last])
  also have "?results ! i = fst (loadTranslation net (rnd i) env st (names ! i))"
    using loadEach_nth [OF i, of net rnd env 0 st] by simp
  finally have "map_of (translations (loadTranslations net rnd env st names)) (names ! i)
      = Some (settledPayload (net (requestUrl (names ! i) (fst (getCurrentLang env st)) (rnd i))))"
    using stored_settled [of net "rnd i" env st "names ! i"] by (simp add: tr Let_def)
  then show "payloadOf rt (loadTranslations net rnd env st names) (names ! i)
      = settledPayload (net (requestUrl (names ! i) (fst (getCurrentLang env st)) (rnd i)))"
    by (simp add: payloadOf_def getProp_def lookupProp_def)
next
  fix ns
  assume ns: "ns \<notin> set names"
  let ?results = "fst (loadEach net rnd env 0 st names)"
  let ?st' = "snd (loadEach net rnd env 0 st names)"
  have tr: "translations (loadTranslations net rnd env st names)
      = storeResults (translations ?st') names ?results"
    by (simp add: loadTranslations_def split: prod.splits)
  have "translations ?st' = translations st"
    by (cases "names = []") (simp_all add: loadEach_state getCurrentLang_translations)
  with storeResults_other [OF ns, of "translations ?st'" ?results]
  show "payloadOf rt (loadTranslations net rnd env st names) ns = payloadOf rt st ns"
    by (simp add: payloadOf_def getProp_def lookupProp_def tr)
qed


theorem loadTranslations_degrades_witness:
  "''__proto__'' \<notin> set sampleNames
   \<and> failedFetch (sampleNetwork (requestUrl ''contact'' ''en'' (sampleRandom 2)))
   \<and> fst (loadTranslation sampleNetwork (sampleRandom 2) sampleBrowser sampleState ''contact'') = JObj []
   \<and> payloadOf sampleRuntime
        (loadTranslations sampleNetwork sampleRandom sampleBrowser sampleState sampleNames) ''header''
      = JObj [(''nav'', JStr ''Menu'')]
   \<and> payloadOf sampleRuntime
        (loadTranslations sampleNetwork sampleRandom sampleBrowser sampleState sampleNames) ''footer''
      = JObj []
   \<and> payloadOf sampleRuntime
        (loadTranslations sampleNetwork sampleRandom sampleBrowser sampleState sampleNames) ''contact''
      = JObj []
   \<and> payloadOf sampleRuntime
        (loadTranslations sampleNetwork sampleRandom sampleBrowser sampleState sampleNames) ''services''
      = JObj [(''name'', JStr ''Services'')]"
proof -
  have p: "''__proto__'' \<notin> set sampleNames"
    by (simp add: sampleNames_def)
  note L = loadTranslations_degrades
    [OF p, of sampleNetwork sampleBrowser sampleState sampleRuntime sampleRandom]
  have lang: "fst (getCurrentLang sampleBrowser sampleState) = ''en''"
    by code_simp
  have f: "failedFetch (sampleNetwork (requestUrl ''contact'' ''en'' (sampleRandom 2)))"
    by code_simp
  have idx: "0 < length sampleNames" "1 < length sampleNames" "2 < length sampleNames"
    "sampleNames ! 0 = ''header''" "sampleNames ! 1 = ''footer''" "sampleNames ! 2 = ''contact''"
    "sampleNames ! 0 \<notin> set (drop (Suc 0) sampleNames)"
    "sampleNames ! 1 \<notin> set (drop (Suc 1) sampleNames)"
    "sampleNames ! 2 \<notin> set (drop (Suc 2) sampleNames)"
    "''services'' \<notin> set sampleNames"
    by (simp_all add: sampleNames_def)
  have s: "settledPayload (sampleNetwork (requestUrl ''header'' ''en'' (sampleRandom 0)))
        = JObj [(''nav'', JStr ''Menu'')]"
    "settledPayload (sampleNetwork (requestUrl ''footer'' ''en'' (sampleRandom 1))) = JObj []"
    "settledPayload (sampleNetwork (requestUrl ''contact'' ''en'' (sampleRandom 2))) = JObj []"
    "payloadOf sampleRuntime sampleState ''services'' = JObj [(''name'', JStr ''Services'')]"
    by code_simp+
  have 1: "fst (loadTranslation sampleNetwork (sampleRandom 2) sampleBrowser sampleState ''contact'') = JObj []"
    using L [THEN conjunct1, THEN spec, THEN spec, of "''contact''" "sampleRandom 2"] f
    by (simp add: lang)
  have 2: "payloadOf sampleRuntime
        (loadTranslations sampleNetwork sampleRandom sampleBrowser sampleState sampleNames) ''header''
      = JObj [(''nav'', JStr ''Menu'')]"
    using L [THEN conjunct2, THEN conjunct1, THEN spec, of 0] idx s by (simp add: lang)
  have 3: "payloadOf sampleRuntime
        (loadTranslations sampleNetwork sampleRandom sampleBrowser sampleState sampleNames) ''footer''
      = JObj []"
    using L [THEN conjunct2, THEN conjunct1, THEN spec, of 1] idx s by (simp add: lang)
  have 4: "payloadOf sampleRuntime
        (loadTranslations sampleNetwork sampleRandom sampleBrowser sampleState sampleNames) ''contact''
      = JObj []"
    using L [THEN conjunct2, THEN conjunct1, THEN spec, of 2] idx s by (simp add: lang)
  have 5: "payloadOf sampleRuntime
        (loadTranslations sampleNetwork sampleRandom sampleBrowser sampleState sampleNames) ''services''
      = JObj [(''name'', JStr ''Services'')]"
    using L [THEN conjunct2, THEN conjunct2, THEN spec, of "''services''"] idx s by simp
  from p f 1 2 3 4 5 show ?thesis by simp
qed

section \<open>Properties of the key resolver\<close>

text \<open>A string of decimal digits is accepted by \<^verbatim>\<open>Number\<close>, and \<^verbatim>\<open>parseInt\<close> reads
  its value.\<close>

lemma dropWhile_hd: "s \<noteq> [] \<Longrightarrow> \<not> P (hd s) \<Longrightarrow> dropWhile P s = s"
  by (cases s) auto

lemma digit_not_space: "is_digit c \<Longrightarrow> \<not> is_space c"
  by (auto simp: is_digit_def is_space_def)

lemma is_index_hd: "is_index seg \<Longrightarrow> is_digit (hd seg) \<and> is_digit (last seg)"
  by (cases seg) (auto simp: is_index_def list_all_iff)

lemma is_index_trim: "is_index seg \<Longrightarrow> trim seg = seg \<and> trim_start seg = seg"
proof -
  assume i: "is_index seg"
  then have ne: "seg \<noteq> []" by (simp add: is_index_def)
  from i have h: "\<not> is_space (hd seg)" "\<not> is_space (last seg)"
    by (simp_all add: is_index_hd digit_not_space)
  have a: "dropWhile is_space seg = seg"
    using ne h(1) by (rule dropWhile_hd)
  have b: "dropWhile is_space (rev seg) = rev seg"
    using ne h(2) by (intro dropWhile_hd) (simp_all add: hd_rev)
  show ?thesis by (simp add: trim_def trim_start_def a b)
qed

lemma is_index_strip_sign: "is_index seg \<Longrightarrow> strip_sign seg = seg"
  by (cases seg) (auto simp: strip_sign_def is_index_def is_digit_def)

lemma is_index_digits:
  "is_index seg \<Longrightarrow> takeWhile is_digit seg = seg \<and> dropWhile is_digit seg = []"
  by (auto simp: is_index_def list_all_iff)

lemma is_index_numeric: "is_index seg \<Longrightarrow> is_numeric seg"
proof -
  assume i: "is_index seg"
  then have "unsigned_decimal seg"
    by (simp add: unsigned_decimal_def is_index_digits) (simp add: is_index_def)
  with i show ?thesis
    by (simp add: is_numeric_def is_index_trim is_index_strip_sign)
qed

lemma is_index_not_hex:
  "is_index seg \<Longrightarrow>
   \<not> (case seg of z # p # _ \<Rightarrow> z = CHR ''0'' \<and> (p = CHR ''x'' \<or> p = CHR ''X'') | _ \<Rightarrow> False)"
  by (auto simp: is_index_def is_digit_def split: list.splits)

lemma is_index_not_neg:
  "is_index seg \<Longrightarrow> \<not> (case seg of [] \<Rightarrow> False | c # _ \<Rightarrow> c = CHR ''-'')"
  by (auto simp: is_index_def is_digit_def split: list.splits)

lemma is_index_parseInt:
  "is_index seg \<Longrightarrow> parseInt seg = Some (int (radix_val 10 digit_val seg))"
proof -
  assume i: "is_index seg"
  then have ne: "seg \<noteq> []" by (simp add: is_index_def)
  show ?thesis
    unfolding parseInt_def
    using ne is_index_not_hex [OF i] is_index_not_neg [OF i]
    by (simp add: is_index_trim [OF i] is_index_strip_sign [OF i] is_index_digits [OF i])
qed

lemma walk_nullish: "nullish v \<Longrightarrow> nullish (walk rt v segs)"
  by (cases v; cases segs) simp_all

lemma walk_refines_spec:
  "plain_walk rt v segs \<Longrightarrow> same_result (walk rt v segs) (lookup_spec v segs)"
proof (induction segs arbitrary: v)
  case Nil
  then show ?case by (simp add: same_result_def)
next
  case (Cons seg segs)
  show ?case
  proof (cases v)
    case (JArr xs)
    show ?thesis
    proof (cases "is_index seg")
      case True
      then have num: "is_numeric seg" and p: "parseInt seg = Some (int (radix_val 10 digit_val seg))"
        by (simp_all add: is_index_numeric is_index_parseInt)
      show ?thesis
      proof (cases "radix_val 10 digit_val seg < length xs")
        case inside: True
        with JArr True Cons.prems
        have "plain_walk rt (xs ! radix_val 10 digit_val seg) segs"
          by simp
        from Cons.IH [OF this] JArr True num p inside show ?thesis
          by (simp add: arrayIndex_def)
      next
        case False
        with JArr True num p walk_nullish [of JUndefined rt segs] show ?thesis
          by (simp add: arrayIndex_def same_result_def)
      qed
    next
      case False
      show ?thesis
      proof (cases "is_numeric seg")
        case True
        with JArr False Cons.prems have "nullish (arrayIndex xs (parseInt seg))"
          by simp
        from walk_nullish [OF this, of rt segs] JArr False True show ?thesis
          by (simp add: same_result_def)
      next
        case nn: False
        show ?thesis
        proof (cases "lookupArrayProp rt xs seg")
          case None
          with JArr False nn show ?thesis
            by (simp add: same_result_def)
        next
          case (Some w)
          with JArr False nn Cons.prems have "nullish w"
            by simp
          from walk_nullish [OF this, of rt segs] JArr False nn Some show ?thesis
            by (simp add: same_result_def)
        qed
      qed
    qed
  next
    case (JObj ps)
    show ?thesis
    proof (cases "map_of ps seg")
      case (Some w)
      with JObj Cons.prems have "plain_walk rt w segs"
        by simp
      from Cons.IH [OF this] JObj Some show ?thesis
        by (simp add: lookupProp_def)
    next
      case None
      show ?thesis
      proof (cases "objectProto rt seg")
        case noProto: None
        with JObj None show ?thesis
          by (simp add: lookupProp_def same_result_def)
      next
        case (Some w)
        with JObj None Cons.prems have "nullish w"
          by simp
        from walk_nullish [OF this, of rt segs] JObj None Some show ?thesis
          by (simp add: lookupProp_def same_result_def)
      qed
    qed
  qed (simp_all add: same_result_def)
qed

text \<open>
  Claim C3, as amended. \<open>getValue\<close> returns the payload itself for the empty path. For
  every payload and path whose walk is plain it agrees with the walk of the
  specification: both return the same value, or both report not-found (\<^verbatim>\<open>null\<close> or
  \<^verbatim>\<open>undefined\<close>). A stored empty string or \<^verbatim>\<open>false\<close> is a value, not the sentinel.
\<close>

theorem getValue_refines_spec:
  "getValue rt payload [] = payload
   \<and> (plain_path rt payload path
        \<longrightarrow> same_result (getValue rt payload path) (resolver_spec payload path))"
proof (intro conjI impI)
  show "getValue rt payload [] = payload"
    by (simp add: getValue_def)
next
  assume "plain_path rt payload path"
  then have "same_result (walk rt payload (split_on CHR ''.'' path))
      (lookup_spec payload (split_on CHR ''.'' path))"
    unfolding plain_path_def by (rule walk_refines_spec)
  then show "same_result (getValue rt payload path) (resolver_spec payload path)"
    by (simp add: getValue_def resolver_spec_def same_result_def)
qed

theorem getValue_refines_spec_witness:
  "plain_path sampleRuntime (payloadOf sampleRuntime sampleState ''index'') ''items.1''
   \<and> plain_path sampleRuntime (payloadOf sampleRuntime sampleState ''index'') ''lead''
   \<and> plain_path sampleRuntime (payloadOf sampleRuntime sampleState ''index'') ''items.7.x''
   \<and> plain_path sampleRuntime (payloadOf sampleRuntime sampleState ''index'') ''title.length''
   \<and> plain_path sampleRuntime (payloadOf sampleRuntime sampleState ''index'') ''length''
   \<and> getValue sampleRuntime (payloadOf sampleRuntime sampleState ''index'') ''items.1'' = JStr ''two''
   \<and> getValue sampleRuntime (payloadOf sampleRuntime sampleState ''index'') ''lead'' = JStr []
   \<and> nullish (getValue sampleRuntime (payloadOf sampleRuntime sampleState ''index'') ''items.7.x'')
   \<and> nullish (getValue sampleRuntime (payloadOf sampleRuntime sampleState ''index'') ''title.length'')
   \<and> nullish (getValue sampleRuntime (payloadOf sampleRuntime sampleState ''index'') ''length'')"
proof -
  let ?P = "payloadOf sampleRuntime sampleState ''index''"
  have a: "plain_path sampleRuntime ?P ''items.1''"
    by code_simp
  have b: "plain_path sampleRuntime ?P ''lead''"
    by code_simp
  have c: "plain_path sampleRuntime ?P ''items.7.x''"
    by code_simp
  have d: "plain_path sampleRuntime ?P ''title.length''"
    by code_simp
  have e: "plain_path sampleRuntime ?P ''length''"
    by code_simp
  have s: "resolver_spec ?P ''items.1'' = JStr ''two''"
    "resolver_spec ?P ''lead'' = JStr []"
    "resolver_spec ?P ''items.7.x'' = JNull"
    "resolver_spec ?P ''title.length'' = JNull"
    "resolver_spec ?P ''length'' = JNull"
    by code_simp+
  note G = getValue_refines_spec [of sampleRuntime ?P]
  have 1: "getValue sampleRuntime ?P ''items.1'' = JStr ''two''"
    using G [of "''items.1''", THEN conjunct2] a s(1) by (simp add: same_result_def)
  have 2: "getValue sampleRuntime ?P ''lead'' = JStr []"
    using G [of "''lead''", THEN conjunct2] b s(2) by (simp add: same_result_def)
  have 3: "nullish (getValue sampleRuntime ?P ''items.7.x'')"
    using G [of "''items.7.x''", THEN conjunct2] c s(3) by (auto simp add: same_result_def)
  have 4: "nullish (getValue sampleRuntime ?P ''title.length'')"
    using G [of "''title.length''", THEN conjunct2] d s(4) by (auto simp add: same_result_def)
  have 5: "nullish (getValue sampleRuntime ?P ''length'')"
    using G [of "''length''", THEN conjunct2] e s(5) by (auto simp add: same_result_def)
  from a b c d e 1 2 3 4 5 show ?thesis by simp
qed

text \<open>
  Claim C3, as stated, fails. On the payload \<^verbatim>\<open>{"items": ["one", "two"]}\<close> the path
  \<^verbatim>\<open>items.length\<close> gives the number 2, since \<^verbatim>\<open>"length" in result\<close> holds for an
  array, where the walk of the specification reports not-found; and the path
  \<^verbatim>\<open>items.1e3\<close> gives the element at index 1, since \<^verbatim>\<open>isNaN("1e3")\<close> is false and
  \<^verbatim>\<open>parseInt("1e3")\<close> is 1.
\<close>

theorem getValue_differs_from_spec:
  "getValue sampleRuntime (JObj [(''items'', JArr [JStr ''one'', JStr ''two''])]) ''items.length'' = JNum 2
   \<and> resolver_spec (JObj [(''items'', JArr [JStr ''one'', JStr ''two''])]) ''items.length'' = JNull
   \<and> getValue sampleRuntime (JObj [(''items'', JArr [JStr ''one'', JStr ''two''])]) ''items.1e3'' = JStr ''two''
   \<and> resolver_spec (JObj [(''items'', JArr [JStr ''one'', JStr ''two''])]) ''items.1e3'' = JNull
   \<and> \<not> same_result
         (getValue sampleRuntime (JObj [(''items'', JArr [JStr ''one'', JStr ''two''])]) ''items.length'')
         (resolver_spec (JObj [(''items'', JArr [JStr ''one'', JStr ''two''])]) ''items.length'')"
  by code_simp

section \<open>Properties of the DOM applicator\<close>

text \<open>Class tokens written back and read again are the same tokens.\<close>

lemma split_where_free: "list_all (\<lambda>c. \<not> p c) w \<Longrightarrow> split_where p w = [w]"
  by (induction w) auto

lemma split_where_append:
  "list_all (\<lambda>c. \<not> p c) w \<Longrightarrow> p sep \<Longrightarrow> split_where p (w @ sep # rest) = w # split_where p rest"
  by (induction w) auto

lemma split_where_pieces:
  "w \<in> set (split_where p s) \<Longrightarrow> list_all (\<lambda>c. \<not> p c) w"
  by (induction s arbitrary: w) (auto split: if_splits list.splits)

lemma split_joinTokens:
  "list_all (\<lambda>w. w \<noteq> [] \<and> list_all (\<lambda>c. \<not> is_class_space c) w) ws \<Longrightarrow> ws \<noteq> []
   \<Longrightarrow> split_where is_class_space (joinTokens ws) = ws"
proof (induction ws rule: joinTokens.induct)
  case 1
  then show ?case by simp
next
  case (2 w)
  then show ?case by (simp add: split_where_free)
next
  case (3 w v ws)
  have sp: "is_class_space CHR '' ''"
    by (simp add: is_class_space_def)
  from 3 have w: "list_all (\<lambda>c. \<not> is_class_space c) w"
    by simp
  from 3 have "split_where is_class_space (joinTokens (v # ws)) = v # ws"
    by simp
  with split_where_append [OF w sp, of "joinTokens (v # ws)"] show ?case
    by simp
qed

lemma classTokens_joinTokens: "cleanTokens ws \<Longrightarrow> classTokens (joinTokens ws) = ws"
proof (cases "ws = []")
  case True
  then show ?thesis by (simp add: classTokens_def)
next
  case False
  assume c: "cleanTokens ws"
  then have "split_where is_class_space (joinTokens ws) = ws"
    using False by (intro split_joinTokens) (simp_all add: cleanTokens_def)
  moreover from c have "filter (\<lambda>w. w \<noteq> []) ws = ws"
    by (auto simp: cleanTokens_def list_all_iff filter_id_conv)
  moreover from c have "rev (remdups (rev ws)) = ws"
    by (simp add: cleanTokens_def distinct_remdups_id)
  ultimately show ?thesis by (simp add: classTokens_def)
qed

lemma cleanTokens_classTokens: "cleanTokens (classTokens s)"
  by (auto simp: cleanTokens_def classTokens_def list_all_iff dest: split_where_pieces)

lemma cleanTokens_classList: "cleanTokens (classList attrs)"
  by (simp add: classList_def cleanTokens_classTokens)

lemma cleanTokens_removeAll: "cleanTokens ws \<Longrightarrow> cleanTokens (removeAll w ws)"
  by (auto simp: cleanTokens_def list_all_iff distinct_removeAll)

lemma cleanTokens_snoc_active:
  "cleanTokens ws \<Longrightarrow> ''active'' \<notin> set ws \<Longrightarrow> cleanTokens (ws @ [''active''])"
  by (auto simp: cleanTokens_def list_all_iff is_class_space_def)

lemma classList_update:
  "classList (AList.update ''class'' c attrs) = classTokens c"
  by (simp add: classList_def update_conv')

lemma classList_classToggle:
  "classList (classToggle ''active'' force attrs) =
     (if ''active'' \<in> set (classList attrs)
      then (if force then classList attrs else removeAll ''active'' (classList attrs))
      else (if force then classList attrs @ [''active''] else classList attrs))"
  by (simp add: classToggle_def classList_update classTokens_joinTokens
      cleanTokens_removeAll cleanTokens_snoc_active cleanTokens_classList)

lemma classToggle_idem:
  "classToggle ''active'' force (classToggle ''active'' force attrs) = classToggle ''active'' force attrs"
proof -
  have "(''active'' \<in> set (classList (classToggle ''active'' force attrs))) = force"
    by (simp add: classList_classToggle)
  then show ?thesis
    by (subst classToggle_def) simp
qed


lemma update_self: "map_of al k = Some v \<Longrightarrow> AList.update k v al = al"
  by (induction al) (auto split: if_splits)

lemma writeAttr_lookup:
  "k \<noteq> attrName attr \<Longrightarrow> map_of (writeAttr rt st attr x) k = map_of x k"
  by (simp add: writeAttr_def update_conv' split: option.splits)

lemma toggleActive_lookup:
  "k \<noteq> ''class'' \<Longrightarrow> map_of (toggleActive lang inside x) k = map_of x k"
  by (simp add: toggleActive_def classToggle_def update_conv' split: option.splits)

lemma writeAttr_settled:
  assumes "attr \<noteq> attrName attr" and "''data-i18n-ns'' \<noteq> attrName attr"
    and "map_of y attr = map_of x attr"
    and "map_of y ''data-i18n-ns'' = map_of x ''data-i18n-ns''"
    and "map_of y (attrName attr) = map_of (writeAttr rt st attr x) (attrName attr)"
  shows "writeAttr rt st attr y = y"
proof (cases "map_of x attr")
  case None
  with assms(3) show ?thesis by (simp add: writeAttr_def)
next
  case (Some key)
  show ?thesis
  proof (cases "t rt st key (map_of x ''data-i18n-ns'') = JStr key")
    case True
    with Some assms(3,4) show ?thesis by (simp add: writeAttr_def)
  next
    case False
    with Some assms(5)
    have "map_of y (attrName attr) = Some (domString rt (t rt st key (map_of x ''data-i18n-ns'')))"
      by (simp add: writeAttr_def update_conv')
    then have "AList.update (attrName attr) (domString rt (t rt st key (map_of x ''data-i18n-ns''))) y = y"
      by (rule update_self)
    with Some False assms(3,4) show ?thesis by (simp add: writeAttr_def)
  qed
qed

lemma toggleActive_idem:
  "toggleActive lang inside (toggleActive lang inside x) = toggleActive lang inside x"
proof (cases "map_of x ''data-lang''")
  case None
  then show ?thesis by (simp add: toggleActive_def)
next
  case (Some l)
  then have "map_of (toggleActive lang inside x) ''data-lang'' = Some l"
    by (simp add: toggleActive_lookup)
  then have "toggleActive lang inside (toggleActive lang inside x)
      = (if inside then classToggle ''active'' (l = lang) (toggleActive lang inside x)
         else toggleActive lang inside x)"
    by (subst toggleActive_def) simp
  also have "\<dots> = toggleActive lang inside x"
    using Some by (simp add: toggleActive_def classToggle_idem)
  finally show ?thesis .
qed

lemma classList_cong: "map_of y ''class'' = map_of x ''class'' \<Longrightarrow> classList y = classList x"
  by (simp add: classList_def)

lemma switcher_toggleActive:
  "(''lang-switcher'' \<in> set (classList (toggleActive lang inside x)))
     = (''lang-switcher'' \<in> set (classList x))"
  by (simp add: toggleActive_def classList_classToggle split: option.splits)

lemma attrSteps_unfold:
  "attrSteps rt st lang inside x =
     toggleActive lang inside
       (writeAttr rt st ''data-i18n-alt''
         (writeAttr rt st ''data-i18n-title''
           (writeAttr rt st ''data-i18n-placeholder''
             (writeAttr rt st ''data-i18n-attr'' x))))"
  by (simp add: attrSteps_def attrAttrs_def)

lemma attrSteps_lookup:
  "k \<notin> set [''attr'', ''placeholder'', ''title'', ''alt'', ''class'']
   \<Longrightarrow> map_of (attrSteps rt st lang inside x) k = map_of x k"
  by (simp add: attrSteps_unfold toggleActive_lookup writeAttr_lookup attrName_def)

lemma attrSteps_switcher:
  "inSwitcher b (attrSteps rt st lang inside x) = inSwitcher b x"
proof -
  have "classList (writeAttr rt st ''data-i18n-alt''
         (writeAttr rt st ''data-i18n-title''
           (writeAttr rt st ''data-i18n-placeholder''
             (writeAttr rt st ''data-i18n-attr'' x)))) = classList x"
    by (rule classList_cong) (simp add: writeAttr_lookup attrName_def)
  then show ?thesis
    by (simp add: inSwitcher_def attrSteps_unfold switcher_toggleActive)
qed


lemma attrSteps_idem:
  "attrSteps rt st lang inside (attrSteps rt st lang inside x) = attrSteps rt st lang inside x"
proof -
  define x1 where "x1 = writeAttr rt st ''data-i18n-attr'' x"
  define x2 where "x2 = writeAttr rt st ''data-i18n-placeholder'' x1"
  define x3 where "x3 = writeAttr rt st ''data-i18n-title'' x2"
  define x4 where "x4 = writeAttr rt st ''data-i18n-alt'' x3"
  define y where "y = toggleActive lang inside x4"
  have y: "attrSteps rt st lang inside x = y"
    by (simp add: attrSteps_unfold x1_def x2_def x3_def x4_def y_def)
  note defs = x1_def x2_def x3_def x4_def y_def
  note look = toggleActive_lookup writeAttr_lookup attrName_def
  have 1: "writeAttr rt st ''data-i18n-attr'' y = y"
  proof (rule writeAttr_settled [where x = x])
    show "map_of y (attrName ''data-i18n-attr'')
        = map_of (writeAttr rt st ''data-i18n-attr'' x) (attrName ''data-i18n-attr'')"
      unfolding y_def x4_def x3_def x2_def x1_def by (simp add: look)
  qed (simp_all add: defs look)
  have 2: "writeAttr rt st ''data-i18n-placeholder'' y = y"
  proof (rule writeAttr_settled [where x = x1])
    show "map_of y (attrName ''data-i18n-placeholder'')
        = map_of (writeAttr rt st ''data-i18n-placeholder'' x1) (attrName ''data-i18n-placeholder'')"
      unfolding y_def x4_def x3_def x2_def by (simp add: look)
  qed (simp_all add: y_def x4_def x3_def x2_def look)
  have 3: "writeAttr rt st ''data-i18n-title'' y = y"
  proof (rule writeAttr_settled [where x = x2])
    show "map_of y (attrName ''data-i18n-title'')
        = map_of (writeAttr rt st ''data-i18n-title'' x2) (attrName ''data-i18n-title'')"
      unfolding y_def x4_def x3_def by (simp add: look)
  qed (simp_all add: y_def x4_def x3_def look)
  have 4: "writeAttr rt st ''data-i18n-alt'' y = y"
  proof (rule writeAttr_settled [where x = x3])
    show "map_of y (attrName ''data-i18n-alt'')
        = map_of (writeAttr rt st ''data-i18n-alt'' x3) (attrName ''data-i18n-alt'')"
      unfolding y_def x4_def by (simp add: look)
  qed (simp_all add: y_def x4_def look)
  have 5: "toggleActive lang inside y = y"
    by (simp add: y_def toggleActive_idem)
  show ?thesis
    unfolding y by (simp add: attrSteps_unfold 1 2 3 4 5)
qed

lemma restyle_text_nodes: "map (restyle step b) (textNodes s) = textNodes s"
  by (simp add: textNodes_def)

lemma writes_switcher:
  "inSwitcher b (writeAttr rt st ''data-i18n-alt''
         (writeAttr rt st ''data-i18n-title''
           (writeAttr rt st ''data-i18n-placeholder''
             (writeAttr rt st ''data-i18n-attr'' attrs)))) = inSwitcher b attrs"
proof -
  have "classList (writeAttr rt st ''data-i18n-alt''
         (writeAttr rt st ''data-i18n-title''
           (writeAttr rt st ''data-i18n-placeholder''
             (writeAttr rt st ''data-i18n-attr'' attrs)))) = classList attrs"
    by (rule classList_cong) (simp add: writeAttr_lookup attrName_def)
  then show ?thesis
    by (simp add: inSwitcher_def)
qed

lemma loops_restyle:
  "markSwitcher lang b
     (translateAttr rt st ''data-i18n-alt''
       (translateAttr rt st ''data-i18n-title''
         (translateAttr rt st ''data-i18n-placeholder''
           (translateAttr rt st ''data-i18n-attr'' n))))
   = restyle (attrSteps rt st lang) b n"
proof (induction n arbitrary: b)
  case (Text s)
  show ?case by simp
next
  case (Element tag attrs children)
  then show ?case
    by (simp add: attrSteps_unfold writes_switcher cong: map_cong)
qed

lemma translateText_restyle:
  "translateText rt st (restyle (attrSteps rt st lang) b n)
     = restyle (attrSteps rt st lang) b (translateText rt st n)"
proof (induction n arbitrary: b)
  case (Text s)
  show ?case by simp
next
  case (Element tag attrs children)
  have m: "map_of (attrSteps rt st lang b attrs) ''data-i18n'' = map_of attrs ''data-i18n''"
    "map_of (attrSteps rt st lang b attrs) ''data-i18n-ns'' = map_of attrs ''data-i18n-ns''"
    by (simp_all add: attrSteps_lookup)
  from Element show ?case
    by (simp add: m restyle_text_nodes split: option.splits cong: map_cong)
qed

lemma restyle_html_restyle:
  "restyle (attrSteps rt st lang) b (translateHtml rt st (restyle (attrSteps rt st lang) b n))
     = restyle (attrSteps rt st lang) b (translateHtml rt st n)"
proof (induction n arbitrary: b)
  case (Text s)
  show ?case by simp
next
  case (Element tag attrs children)
  have m: "map_of (attrSteps rt st lang b attrs) ''data-i18n-html'' = map_of attrs ''data-i18n-html''"
    "map_of (attrSteps rt st lang b attrs) ''data-i18n-ns'' = map_of attrs ''data-i18n-ns''"
    by (simp_all add: attrSteps_lookup)
  from Element show ?case
    by (simp add: m attrSteps_idem attrSteps_switcher split: option.splits cong: map_cong)
qed

lemma translateText_idem:
  "translateText rt st (translateText rt st n) = translateText rt st n"
proof (induction n)
  case (Text s)
  show ?case by simp
next
  case (Element tag attrs children)
  then show ?case
    by (simp add: textNodes_def split: option.splits cong: map_cong)
qed

lemma map_fixed_elem: "map f xs = xs \<Longrightarrow> x \<in> set xs \<Longrightarrow> f x = x"
  by (induction xs) auto

lemma html_text_nodes: "map (translateHtml rt st) (textNodes s) = textNodes s"
  by (simp add: textNodes_def)

lemma translateText_cases:
  "translateText rt st (Element tag attrs children) =
     (case hitOf rt st ''data-i18n'' attrs of
        Some v \<Rightarrow> Element tag attrs (textNodes (domString rt v))
      | None \<Rightarrow> Element tag attrs (map (translateText rt st) children))"
  by (simp add: hitOf_def split: option.splits)

lemma translateHtml_cases:
  "translateHtml rt st (Element tag attrs children) =
     (case hitOf rt st ''data-i18n-html'' attrs of
        Some v \<Rightarrow> Element tag attrs (parseFragment rt tag (domString rt v))
      | None \<Rightarrow> Element tag attrs (map (translateHtml rt st) children))"
  by (simp add: hitOf_def split: option.splits)

lemma html_text_html:
  "translateText rt st e = e
   \<Longrightarrow> translateHtml rt st (translateText rt st (translateHtml rt st e)) = translateHtml rt st e"
proof (induction e)
  case (Text s)
  show ?case by simp
next
  case (Element tag attrs children)
  note [simp del] = translateText.simps(2) translateHtml.simps(2)
  show ?case
  proof (cases "hitOf rt st ''data-i18n-html'' attrs")
    case (Some v)
    then show ?thesis
      by (cases "hitOf rt st ''data-i18n'' attrs")
        (simp_all add: translateText_cases translateHtml_cases)
  next
    case noHtml: None
    show ?thesis
    proof (cases "hitOf rt st ''data-i18n'' attrs")
      case (Some v)
      with Element.prems have c: "children = textNodes (domString rt v)"
        by (simp add: translateText_cases)
      from noHtml Some show ?thesis
        by (simp add: translateText_cases translateHtml_cases c html_text_nodes)
    next
      case noText: None
      with Element.prems have same: "map (translateText rt st) children = children"
        by (simp add: translateText_cases)
      have "translateHtml rt st (translateText rt st (translateHtml rt st c)) = translateHtml rt st c"
        if "c \<in> set children" for c
        using that Element.IH [OF that] map_fixed_elem [OF same that] by simp
      then have "map (\<lambda>c. translateHtml rt st (translateText rt st (translateHtml rt st c))) children
          = map (translateHtml rt st) children"
        by (simp cong: map_cong)
      with noHtml noText show ?thesis
        by (simp add: translateText_cases translateHtml_cases comp_def)
    qed
  qed
qed

lemma node_idempotent:
  "restyle (attrSteps rt st lang) b (translateHtml rt st (translateText rt st
     (restyle (attrSteps rt st lang) b (translateHtml rt st (translateText rt st n)))))
   = restyle (attrSteps rt st lang) b (translateHtml rt st (translateText rt st n))"
proof -
  let ?R = "restyle (attrSteps rt st lang) b"
  let ?H = "translateHtml rt st"
  let ?T = "translateText rt st"
  have "?R (?H (?T (?R (?H (?T n))))) = ?R (?H (?R (?T (?H (?T n)))))"
    by (simp only: translateText_restyle)
  also have "\<dots> = ?R (?H (?T (?H (?T n))))"
    by (rule restyle_html_restyle)
  also have "?H (?T (?H (?T n))) = ?H (?T n)"
    by (rule html_text_html) (rule translateText_idem)
  finally show ?thesis .
qed

lemma applyTranslations_eq:
  "applyTranslations rt env st inside scope =
     (snd (getCurrentLang env st),
      map (\<lambda>n. restyle (attrSteps rt (snd (getCurrentLang env st)) (fst (getCurrentLang env st))) inside
                 (translateHtml rt (snd (getCurrentLang env st))
                   (translateText rt (snd (getCurrentLang env st)) n))) scope)"
  by (simp add: applyTranslations_def attrAttrs_def loops_restyle comp_def split: prod.splits)

text \<open>
  Claim C8. Applying the translations is idempotent: a second application, to the state
  and the nodes the first one left, with the same registry and scope, returns the same
  state and the same nodes.
\<close>

theorem applyTranslations_idempotent:
  "applyTranslations rt env (fst (applyTranslations rt env st inside scope)) inside
     (snd (applyTranslations rt env st inside scope))
   = applyTranslations rt env st inside scope"
proof -
  let ?st = "snd (getCurrentLang env st)"
  have again: "getCurrentLang env ?st = getCurrentLang env st"
    by (rule getCurrentLang_again)
  show ?thesis
    unfolding applyTranslations_eq [of rt env st]
    by (simp add: applyTranslations_eq [of rt env ?st] again node_idempotent comp_def)
qed


theorem applyTranslations_idempotent_witness:
  "snd (applyTranslations sampleRuntime sampleBrowser sampleState False sampleScope) =
     [Element ''body'' []
        [Element ''div'' [(''class'', ''lang-switcher'')]
           [Element ''a'' [(''data-lang'', ''zh''), (''class'', [])] [Text ''ZH''],
            Element ''a'' [(''data-lang'', ''en''), (''class'', ''active'')] [Text ''EN'']],
         Element ''h1'' [(''data-i18n'', ''title'')] [Text ''Welcome''],
         Element ''p'' [(''data-i18n-html'', ''rights''), (''data-i18n-ns'', ''footer'')]
           [Text ''All rights reserved''],
         Element ''input'' [(''data-i18n-placeholder'', ''name''), (''data-i18n-ns'', ''services''),
                            (''placeholder'', ''Services'')] [],
         Element ''span'' [(''data-i18n'', ''missing'')] [Text ''kept'']]]
   \<and> applyTranslations sampleRuntime sampleBrowser
         (fst (applyTranslations sampleRuntime sampleBrowser sampleState False sampleScope)) False
         (snd (applyTranslations sampleRuntime sampleBrowser sampleState False sampleScope))
       = applyTranslations sampleRuntime sampleBrowser sampleState False sampleScope"
proof -
  have once: "snd (applyTranslations sampleRuntime sampleBrowser sampleState False sampleScope) =
     [Element ''body'' []
        [Element ''div'' [(''class'', ''lang-switcher'')]
           [Element ''a'' [(''data-lang'', ''zh''), (''class'', [])] [Text ''ZH''],
            Element ''a'' [(''data-lang'', ''en''), (''class'', ''active'')] [Text ''EN'']],
         Element ''h1'' [(''data-i18n'', ''title'')] [Text ''Welcome''],
         Element ''p'' [(''data-i18n-html'', ''rights''), (''data-i18n-ns'', ''footer'')]
           [Text ''All rights reserved''],
         Element ''input'' [(''data-i18n-placeholder'', ''name''), (''data-i18n-ns'', ''services''),
                            (''placeholder'', ''Services'')] [],
         Element ''span'' [(''data-i18n'', ''missing'')] [Text ''kept'']]]"
    by code_simp
  show ?thesis
    using once
      applyTranslations_idempotent [of sampleRuntime sampleBrowser sampleState False sampleScope]
    by (simp only: simp_thms)
qed

end
